theory Spec2Isabelle
  imports Complex_Main "HOL-Library.Log_Nat"
begin

section \<open>Numbers\<close>

text \<open>
  The source computes on JavaScript numbers (IEEE 754 binary64). Every arithmetic
  operation of the source is modelled as the exact operation on \<^typ>\<open>real\<close> followed by a
  rounding function \<open>r\<close>, which every handler that computes takes as its first argument.
  Two roundings are used. \<open>binary64\<close> is the arithmetic of the code: round to nearest,
  ties to even, 53-bit significand, with the subnormal range; faithful for results below
  \<open>2^1024\<close> in magnitude. The statements in which rounding decides what the program does
  (the buyback burn, the airdrop, the ten additions of the scenario) are about it, or
  about every rounding. \<open>exact\<close> is no rounding: the statements about amounts that the
  code computes up to the last bit are made in it.
  NaN and the infinities are outside the model; no division of the source has a zero
  divisor on the paths modelled.
\<close>

definition exact :: "real \<Rightarrow> real" where
  "exact x = x"

definition expo :: "real \<Rightarrow> int" where
  \<comment> \<open>for \<open>0 < x\<close>: the \<open>e\<close> with \<open>2^e \<le> x < 2^(e+1)\<close>\<close>
  "expo x = (if 1 \<le> x then bitlen \<lfloor>x\<rfloor> - 1 else - bitlen (\<lceil>1 / x\<rceil> - 1))"

definition pow2 :: "int \<Rightarrow> real" where
  "pow2 e = (if 0 \<le> e then 2 ^ nat e else 1 / 2 ^ nat (- e))"

definition round_even :: "real \<Rightarrow> int" where
  "round_even q = (let f = \<lfloor>q\<rfloor>; d = q - of_int f in
     if d < 1 / 2 then f else if 1 / 2 < d then f + 1
     else if even f then f else f + 1)"

definition binary64 :: "real \<Rightarrow> real" where
  "binary64 x = (if x = 0 then 0 else
     let a = \<bar>x\<bar>; e = max (expo a) (- 1022); u = pow2 (e - 52)
     in sgn x * of_int (round_even (a / u)) * u)"

definition is_double :: "real \<Rightarrow> bool" where
  \<comment> \<open>the finite doubles: a significand of at most 53 bits times a power of two that is at
      least the least subnormal\<close>
  "is_double x = (\<exists>k j. \<bar>k\<bar> \<le> 2 ^ 53 \<and> - 1074 \<le> j \<and> x = real_of_int k * pow2 j)"

definition jadd :: "(real \<Rightarrow> real) \<Rightarrow> real \<Rightarrow> real \<Rightarrow> real" where
  "jadd r x y = r (x + y)"

definition jsub :: "(real \<Rightarrow> real) \<Rightarrow> real \<Rightarrow> real \<Rightarrow> real" where
  "jsub r x y = r (x - y)"

definition jmul :: "(real \<Rightarrow> real) \<Rightarrow> real \<Rightarrow> real \<Rightarrow> real" where
  "jmul r x y = r (x * y)"

definition jdiv :: "(real \<Rightarrow> real) \<Rightarrow> real \<Rightarrow> real \<Rightarrow> real" where
  "jdiv r x y = r (x / y)"

definition jfloor :: "real \<Rightarrow> real" where
  \<comment> \<open>\<open>Math.floor\<close>\<close>
  "jfloor x = of_int \<lfloor>x\<rfloor>"

section \<open>Data model\<close>

text \<open>
  The types of the source. Timestamps (\<open>ts\<close>, \<open>createdAt\<close>, \<open>endsAt\<close>: ISO strings in the
  source, compared through \<open>new Date(...).getTime()\<close>) are kept as the milliseconds that
  \<open>getTime()\<close> returns. \<open>Partial<Params>\<close> is a record of optional fields.
\<close>

record Wallet =
  address :: string
  mst :: real
  gov :: real
  usdc :: real
  claimableUSDC :: real
  votingPower :: real
  stakedGov :: real

record UsageEvent =
  id_event :: string
  ts :: int
  caller :: string
  feeUSDC :: real
  version :: string
  note_event :: "string option"

record Params =
  apiFeeUSDC :: real
  revenueSharePct :: real
  daoTreasuryPct :: real
  buybackPct :: real
  buybackActive :: bool
  govStakeBoost :: real

record ParamChanges =
  apiFeeUSDC_opt :: "real option"
  revenueSharePct_opt :: "real option"
  daoTreasuryPct_opt :: "real option"
  buybackPct_opt :: "real option"
  buybackActive_opt :: "bool option"
  govStakeBoost_opt :: "real option"

record Proposal =
  id_proposal :: string
  title :: string
  description :: string
  createdAt :: int
  endsAt :: int
  paramChanges :: ParamChanges
  forVotes :: real
  againstVotes :: real
  abstainVotes :: real
  executed :: bool

record AppState =
  wallets :: "Wallet list"
  connected_addr :: "string option"
  totalSupplyMST :: real
  totalSupplyGOV :: real
  circulatingMST :: real
  circulatingGOV :: real
  treasuryUSDC :: real
  buybackPoolUSDC :: real
  usage :: "UsageEvent list"
  proposals :: "Proposal list"
  modelVersion :: string
  params :: Params

datatype choice = For | Against | Abstain

text \<open>The notifications, one constructor per \<open>setToast\<close> title of the source.\<close>

datatype toast =
    WalletConnected          \<comment> \<open>"Wallet connected"\<close>
  | InsufficientUSDC         \<comment> \<open>"Insufficient USDC"\<close>
  | PurchasedMST             \<comment> \<open>"Purchased MST"\<close>
  | AirdropReceived          \<comment> \<open>"Airdrop received"\<close>
  | NotEnoughGOVToStake      \<comment> \<open>"Not enough GOV to stake"\<close>
  | StakedGOV                \<comment> \<open>"Staked GOV"\<close>
  | NotEnoughStakedGOV       \<comment> \<open>"Not enough staked GOV"\<close>
  | UnstakedGOV              \<comment> \<open>"Unstaked GOV"\<close>
  | ConnectWalletToSimulate  \<comment> \<open>"Connect a wallet to simulate"\<close>
  | Simulated int            \<comment> \<open>"Simulated n API calls"\<close>
  | NothingToClaim           \<comment> \<open>"Nothing to claim yet"\<close>
  | RevenueClaimed           \<comment> \<open>"Revenue claimed"\<close>
  | ProposalCreated          \<comment> \<open>"Proposal created"\<close>
  | NoVotingPower            \<comment> \<open>"No voting power"\<close>
  | VoteCast                 \<comment> \<open>"Vote cast"\<close>
  | ProposalExecuted         \<comment> \<open>"Proposal executed"\<close>

section \<open>Seed\<close>

definition INITIAL_SECURITY_SUPPLY :: real where
  "INITIAL_SECURITY_SUPPLY = 1000000"

definition INITIAL_GOV_SUPPLY :: real where
  "INITIAL_GOV_SUPPLY = 10000000"

definition W1 :: Wallet where
  "W1 = \<lparr>address = ''0xDeF1A1C0FFEE000000000000000000000000beef'', mst = 100000,
          gov = 500000, usdc = 10000, claimableUSDC = 0, votingPower = 0, stakedGov = 0\<rparr>"

definition W2 :: Wallet where
  "W2 = \<lparr>address = ''0xA11CE000000000000000000000000000000c0de'', mst = 10000,
          gov = 100000, usdc = 5000, claimableUSDC = 0, votingPower = 0, stakedGov = 0\<rparr>"

definition W3 :: Wallet where
  "W3 = \<lparr>address = ''0xB0B0000000000000000000000000000000b0b01'', mst = 2500,
          gov = 25000, usdc = 1000, claimableUSDC = 0, votingPower = 0, stakedGov = 0\<rparr>"

definition seed :: AppState where
  "seed = \<lparr>wallets = [W1, W2, W3],
            connected_addr = None,
            totalSupplyMST = INITIAL_SECURITY_SUPPLY,
            totalSupplyGOV = INITIAL_GOV_SUPPLY,
            circulatingMST = 100000 + 10000 + 2500,
            circulatingGOV = 500000 + 100000 + 25000,
            treasuryUSDC = 0,
            buybackPoolUSDC = 0,
            usage = [],
            proposals = [],
            modelVersion = ''v1.0.0'',
            params = \<lparr>apiFeeUSDC = 1, revenueSharePct = 90, daoTreasuryPct = 5,
                       buybackPct = 5, buybackActive = True, govStakeBoost = 2\<rparr>\<rparr>"

section \<open>Handlers of the root component\<close>

text \<open>
  Each handler of \<open>App\<close> is a function from the state of the current render to the next
  state and the notification it sets (\<open>None\<close>: no \<open>setToast\<close> call). The updater passed to
  \<open>setState\<close> runs on the state the handler's closure reads, since each handler calls
  \<open>setState\<close> once per event.
\<close>

definition me :: "AppState \<Rightarrow> Wallet option" where
  "me s = (case connected_addr s of
             None \<Rightarrow> None
           | Some a \<Rightarrow> find (\<lambda>w. address w = a) (wallets s))"

definition mstHolders :: "AppState \<Rightarrow> Wallet list" where
  "mstHolders s = filter (\<lambda>w. 0 < mst w) (wallets s)"

definition totalMSTHeld :: "(real \<Rightarrow> real) \<Rightarrow> AppState \<Rightarrow> real" where
  "totalMSTHeld r s = foldl (\<lambda>a b. jadd r a (mst b)) 0 (mstHolders s)"

definition connect :: "AppState \<Rightarrow> (AppState \<times> toast option) option" where
  \<comment> \<open>\<open>state.wallets[0]\<close> is undefined on an empty list and \<open>w.address\<close> then throws\<close>
  "connect s = (case wallets s of
                  [] \<Rightarrow> None
                | w # _ \<Rightarrow> Some (s\<lparr>connected_addr := Some (address w)\<rparr>, Some WalletConnected))"

definition disconnect :: "AppState \<Rightarrow> AppState \<times> toast option" where
  "disconnect s = (s\<lparr>connected_addr := None\<rparr>, None)"

definition buyMST :: "(real \<Rightarrow> real) \<Rightarrow> AppState \<Rightarrow> real \<Rightarrow> AppState \<times> toast option" where
  "buyMST r s amount =
     (case me s of
        None \<Rightarrow> (s, None)
      | Some m \<Rightarrow>
          if usdc m < amount then (s, Some InsufficientUSDC)
          else let price = 0.5; q = jfloor (jdiv r amount price) in
            if q \<le> 0 then (s, None)
            else (s\<lparr>wallets := map (\<lambda>w. if address w = address m
                                         then w\<lparr>usdc := jsub r (usdc w) (jmul r q price),
                                                mst := jadd r (mst w) q\<rparr>
                                         else w) (wallets s),
                    circulatingMST := jadd r (circulatingMST s) q\<rparr>,
                  Some PurchasedMST))"

definition airdropGOV :: "(real \<Rightarrow> real) \<Rightarrow> AppState \<Rightarrow> real \<Rightarrow> AppState \<times> toast option" where
  "airdropGOV r s amount =
     (case me s of
        None \<Rightarrow> (s, None)
      | Some m \<Rightarrow>
          (s\<lparr>wallets := map (\<lambda>w. if address w = address m
                                  then w\<lparr>gov := jadd r (gov w) amount\<rparr> else w) (wallets s),
             circulatingGOV := jadd r (circulatingGOV s) amount\<rparr>,
           Some AirdropReceived))"



text \<open>
  \<open>simulateUsage\<close>: the \<open>for\<close> loop over the calls, the pro-rata update of the wallets, the
  buyback and burn, and the state update. \<open>stamp i\<close> is what \<open>crypto.randomUUID()\<close> and
  \<open>nowISO()\<close> return in iteration \<open>i\<close>; \<open>calls\<close> is the integer the caller passes
  (the simulator box passes \<open>Math.max(1, parseInt(...))\<close>).
\<close>

function usage_loop ::
  "(real \<Rightarrow> real) \<Rightarrow> (nat \<Rightarrow> string \<times> int) \<Rightarrow> AppState \<Rightarrow> Wallet \<Rightarrow> int \<Rightarrow> nat
     \<Rightarrow> real \<times> real \<times> real \<times> UsageEvent list \<Rightarrow> real \<times> real \<times> real \<times> UsageEvent list" where
  "usage_loop r stamp s m calls i (revenueToHolders, toTreasury, toBuyback, events) =
     (if int i < calls then
        let fee = apiFeeUSDC (params s) in
        usage_loop r stamp s m calls (Suc i)
          (jadd r revenueToHolders (jdiv r (jmul r fee (revenueSharePct (params s))) 100),
           jadd r toTreasury (jdiv r (jmul r fee (daoTreasuryPct (params s))) 100),
           jadd r toBuyback (jdiv r (jmul r fee (buybackPct (params s))) 100),
           events @ [\<lparr>id_event = fst (stamp i), ts = snd (stamp i), caller = address m,
                       feeUSDC = fee, version = modelVersion s,
                       note_event = Some ''API call''\<rparr>])
      else (revenueToHolders, toTreasury, toBuyback, events))"
  by pat_completeness auto
termination
  by (relation "measure (\<lambda>(r, stamp, s, m, calls, i, acc). nat (calls - int i))") auto

declare usage_loop.simps [simp del]

definition distribute :: "(real \<Rightarrow> real) \<Rightarrow> AppState \<Rightarrow> real \<Rightarrow> Wallet list" where
  \<comment> \<open>the \<open>updates\<close> of \<open>simulateUsage\<close>\<close>
  "distribute r s revenueToHolders =
     map (\<lambda>w. if mst w \<le> 0 then w
              else let share = jdiv r (mst w) (totalMSTHeld r s);
                       add = jmul r revenueToHolders share
                   in w\<lparr>claimableUSDC := jadd r (claimableUSDC w) add\<rparr>) (wallets s)"

definition buyback :: "(real \<Rightarrow> real) \<Rightarrow> AppState \<Rightarrow> real \<Rightarrow> real \<times> real \<times> real" where
  \<comment> \<open>\<open>(newCirculatingMST, buybackPoolUSDC, burnMST)\<close> after the buyback step, from the
      pool after accumulation\<close>
  "buyback r s pool =
     (if buybackActive (params s) \<and> 0 < totalMSTHeld r s \<and> 0 < pool then
        let price = 0.5; burnMST = jfloor (jdiv r pool price)
        in (max 0 (jsub r (circulatingMST s) burnMST), jsub r pool (jmul r burnMST price), burnMST)
      else (circulatingMST s, pool, 0))"

definition simulateUsage ::
  "(real \<Rightarrow> real) \<Rightarrow> (nat \<Rightarrow> string \<times> int) \<Rightarrow> AppState \<Rightarrow> int \<Rightarrow> AppState \<times> toast option" where
  "simulateUsage r stamp s calls =
     (case me s of
        None \<Rightarrow> (s, Some ConnectWalletToSimulate)
      | Some m \<Rightarrow>
          (case usage_loop r stamp s m calls 0 (0, 0, 0, []) of
             (revenueToHolders, toTreasury, toBuyback, events) \<Rightarrow>
               (case buyback r s (jadd r (buybackPoolUSDC s) toBuyback) of
                  (newCirculatingMST, pool, burnMST) \<Rightarrow>
                    (s\<lparr>wallets := distribute r s revenueToHolders,
                       usage := usage s @ events,
                       treasuryUSDC := jadd r (treasuryUSDC s) toTreasury,
                       buybackPoolUSDC := pool,
                       circulatingMST := newCirculatingMST\<rparr>,
                     Some (Simulated calls)))))"

definition claimRevenue :: "(real \<Rightarrow> real) \<Rightarrow> AppState \<Rightarrow> AppState \<times> toast option" where
  "claimRevenue r s =
     (case me s of
        None \<Rightarrow> (s, None)
      | Some m \<Rightarrow>
          if claimableUSDC m \<le> 0 then (s, Some NothingToClaim)
          else (s\<lparr>wallets := map (\<lambda>w. if address w = address m
                    then w\<lparr>usdc := jadd r (usdc w) (claimableUSDC w), claimableUSDC := 0\<rparr>
                    else w) (wallets s)\<rparr>,
                Some RevenueClaimed))"

subsection \<open>Governance\<close>

text \<open>
  \<open>uuid\<close> is the identifier \<open>crypto.randomUUID()\<close> returns and \<open>now\<close> the value of
  \<open>Date.now()\<close> at the call (one value for all the reads of the clock in one handler).
  In \<open>execute\<close> the local \<open>newParams\<close> of the source is computed and never used; the
  parameters of the next state come from the second updater expression.
\<close>

definition createProposal ::
  "string \<Rightarrow> int \<Rightarrow> AppState \<Rightarrow> string \<Rightarrow> string \<Rightarrow> int \<Rightarrow> ParamChanges \<Rightarrow> AppState \<times> toast option" where
  "createProposal uuid now s ttl desc ends changes =
     (let newP = \<lparr>id_proposal = uuid, title = ttl, description = desc, createdAt = now,
                   endsAt = ends, paramChanges = changes, forVotes = 0, againstVotes = 0,
                   abstainVotes = 0, executed = False\<rparr>
      in (s\<lparr>proposals := newP # proposals s\<rparr>, Some ProposalCreated))"

definition vote ::
  "(real \<Rightarrow> real) \<Rightarrow> int \<Rightarrow> AppState \<Rightarrow> string \<Rightarrow> choice \<Rightarrow> AppState \<times> toast option" where
  "vote r now s i c =
     (case me s of
        None \<Rightarrow> (s, None)
      | Some m \<Rightarrow>
          let power = (if votingPower m \<noteq> 0 then votingPower m else gov m) in
          if power \<le> 0 then (s, Some NoVotingPower)
          else (s\<lparr>proposals := map (\<lambda>p.
                    if id_proposal p \<noteq> i then p
                    else if endsAt p < now then p
                    else if c = For then p\<lparr>forVotes := jadd r (forVotes p) power\<rparr>
                    else if c = Against then p\<lparr>againstVotes := jadd r (againstVotes p) power\<rparr>
                    else p\<lparr>abstainVotes := jadd r (abstainVotes p) power\<rparr>) (proposals s)\<rparr>,
                Some VoteCast))"

definition merge_params :: "Params \<Rightarrow> ParamChanges \<Rightarrow> Params" where
  \<comment> \<open>the object spread \<open>{ ...s.params, ...prop.paramChanges }\<close>\<close>
  "merge_params p c =
     \<lparr>apiFeeUSDC = (case apiFeeUSDC_opt c of None \<Rightarrow> apiFeeUSDC p | Some v \<Rightarrow> v),
      revenueSharePct = (case revenueSharePct_opt c of None \<Rightarrow> revenueSharePct p | Some v \<Rightarrow> v),
      daoTreasuryPct = (case daoTreasuryPct_opt c of None \<Rightarrow> daoTreasuryPct p | Some v \<Rightarrow> v),
      buybackPct = (case buybackPct_opt c of None \<Rightarrow> buybackPct p | Some v \<Rightarrow> v),
      buybackActive = (case buybackActive_opt c of None \<Rightarrow> buybackActive p | Some v \<Rightarrow> v),
      govStakeBoost = (case govStakeBoost_opt c of None \<Rightarrow> govStakeBoost p | Some v \<Rightarrow> v)\<rparr>"

definition executed_mark :: string where
  \<comment> \<open>two newlines, U+2705 in UTF-8, and " Executed"\<close>
  "executed_mark = [CHR 0x0A, CHR 0x0A, CHR 0xE2, CHR 0x9C, CHR 0x85] @ '' Executed''"

definition execute :: "int \<Rightarrow> AppState \<Rightarrow> string \<Rightarrow> AppState \<times> toast option" where
  "execute now s i =
     (s\<lparr>proposals := map (\<lambda>p.
           if id_proposal p \<noteq> i \<or> executed p \<or> now < endsAt p then p
           else let passed = againstVotes p < forVotes p in
             if \<not> passed then p\<lparr>executed := True\<rparr>
             else p\<lparr>executed := True, description := description p @ executed_mark\<rparr>)
           (proposals s),
        params := (case find (\<lambda>pp. id_proposal pp = i) (proposals s) of
                     None \<Rightarrow> params s
                   | Some prop \<Rightarrow>
                       if now < endsAt prop \<or> executed prop = True then params s
                       else if forVotes prop \<le> againstVotes prop then params s
                       else merge_params (params s) (paramChanges prop))\<rparr>,
      Some ProposalExecuted)"

subsection \<open>Settings panel\<close>

text \<open>
  The \<open>onChange\<close> updaters of the four parameter sliders and of the buyback switch. The
  sliders commit values in \<open>[0.1, 5]\<close> (fee), \<open>[50, 95]\<close> (holders), \<open>[0, 20]\<close> (buyback)
  and \<open>[1, 5]\<close> (boost).
\<close>

definition set_apiFeeUSDC :: "real \<Rightarrow> AppState \<Rightarrow> AppState" where
  "set_apiFeeUSDC v s = s\<lparr>params := (params s)\<lparr>apiFeeUSDC := v\<rparr>\<rparr>"

definition set_revenueSharePct :: "(real \<Rightarrow> real) \<Rightarrow> real \<Rightarrow> AppState \<Rightarrow> AppState" where
  "set_revenueSharePct r v s =
     s\<lparr>params := (params s)\<lparr>revenueSharePct := v,
          daoTreasuryPct := max 0 (jsub r (jsub r 100 v) (buybackPct (params s)))\<rparr>\<rparr>"

definition set_buybackPct :: "(real \<Rightarrow> real) \<Rightarrow> real \<Rightarrow> AppState \<Rightarrow> AppState" where
  "set_buybackPct r v s =
     s\<lparr>params := (params s)\<lparr>buybackPct := v,
          daoTreasuryPct := max 0 (jsub r (jsub r 100 v) (revenueSharePct (params s)))\<rparr>\<rparr>"

definition set_govStakeBoost :: "real \<Rightarrow> AppState \<Rightarrow> AppState" where
  "set_govStakeBoost v s = s\<lparr>params := (params s)\<lparr>govStakeBoost := v\<rparr>\<rparr>"

definition set_buybackActive :: "bool \<Rightarrow> AppState \<Rightarrow> AppState" where
  "set_buybackActive v s = s\<lparr>params := (params s)\<lparr>buybackActive := v\<rparr>\<rparr>"

definition splitSum :: "(real \<Rightarrow> real) \<Rightarrow> AppState \<Rightarrow> real" where
  \<comment> \<open>the sum the self-test "Revenue split sums to 100%" compares with 100\<close>
  "splitSum r s = jadd r (jadd r (revenueSharePct (params s)) (daoTreasuryPct (params s)))
                         (buybackPct (params s))"

subsection \<open>Buttons\<close>

definition AirdropBox_onClick :: "(real \<Rightarrow> real) \<Rightarrow> AppState \<Rightarrow> real \<Rightarrow> AppState \<times> toast option" where
  \<comment> \<open>the "Receive GOV" button: \<open>disabled={!connected || amt <= 0}\<close>, else \<open>onAirdrop(amt)\<close>\<close>
  "AirdropBox_onClick r s amt =
     (if me s = None \<or> amt \<le> 0 then (s, None) else airdropGOV r s amt)"

section \<open>Scenario states\<close>

definition seed_connected :: AppState where
  \<comment> \<open>the seed after \<open>connect\<close>: the first seed wallet is the active identity\<close>
  "seed_connected = seed\<lparr>connected_addr := Some (address W1)\<rparr>"


definition fee_cut :: ParamChanges where
  "fee_cut = \<lparr>apiFeeUSDC_opt = Some 0.9, revenueSharePct_opt = None, daoTreasuryPct_opt = None,
               buybackPct_opt = None, buybackActive_opt = None, govStakeBoost_opt = Some 3\<rparr>"

definition P_for :: Proposal where
  "P_for = \<lparr>id_proposal = ''p-for'', title = ''Cut the fee'', description = ''why'',
             createdAt = 0, endsAt = 1000, paramChanges = fee_cut,
             forVotes = 100, againstVotes = 50, abstainVotes = 0, executed = False\<rparr>"

definition P_against :: Proposal where
  "P_against = \<lparr>id_proposal = ''p-against'', title = ''Cut the fee'', description = ''why'',
             createdAt = 0, endsAt = 1000, paramChanges = fee_cut,
             forVotes = 50, againstVotes = 100, abstainVotes = 0, executed = False\<rparr>"

definition scenarioC :: AppState where
  "scenarioC = seed_connected\<lparr>proposals := [P_for, P_against]\<rparr>"

definition scenarioC_tuned :: AppState where
  \<comment> \<open>the scenario after the settings panel has moved every parameter off its seed value\<close>
  "scenarioC_tuned = scenarioC\<lparr>params := \<lparr>apiFeeUSDC = 2, revenueSharePct = 85,
      daoTreasuryPct = 10, buybackPct = 5, buybackActive = False, govStakeBoost = 3 / 2\<rparr>\<rparr>"

definition executedC :: AppState where
  "executedC = fst (execute 1000 scenarioC ''p-for'')"

definition stamp0 :: "nat \<Rightarrow> string \<times> int" where
  \<comment> \<open>some identifiers and times for the usage events\<close>
  "stamp0 i = (''uuid'', 0)"

definition scenarioA :: AppState where
  \<comment> \<open>the first seed wallet, connected, is the only holder of security tokens\<close>
  "scenarioA = seed_connected\<lparr>wallets := [W1, W2\<lparr>mst := 0\<rparr>, W3\<lparr>mst := 0\<rparr>]\<rparr>"

definition pool10 :: AppState where
  \<comment> \<open>the connected seed with 10 in the buyback pool\<close>
  "pool10 = seed_connected\<lparr>buybackPoolUSDC := 10\<rparr>"

definition no_holders :: AppState where
  \<comment> \<open>the connected seed with every security-token balance at 0\<close>
  "no_holders = seed_connected\<lparr>wallets := [W1\<lparr>mst := 0\<rparr>, W2\<lparr>mst := 0\<rparr>, W3\<lparr>mst := 0\<rparr>]\<rparr>"


definition holders_80 :: ParamChanges where
  \<comment> \<open>the proposal form with only "Holders %" filled in\<close>
  "holders_80 = \<lparr>apiFeeUSDC_opt = None, revenueSharePct_opt = Some 80, daoTreasuryPct_opt = None,
               buybackPct_opt = None, buybackActive_opt = None, govStakeBoost_opt = None\<rparr>"

definition P_80 :: Proposal where
  "P_80 = \<lparr>id_proposal = ''p-80'', title = ''Holders 80'', description = ''why'',
             createdAt = 0, endsAt = 1000, paramChanges = holders_80,
             forVotes = 100, againstVotes = 50, abstainVotes = 0, executed = False\<rparr>"





section \<open>Rounding to binary64\<close>

text \<open>
  \<open>expo\<close> is the binary exponent of a positive number, and \<open>binary64 x\<close> is a multiple of
  the unit in the last place of \<open>x\<close> at most half a unit away from \<open>x\<close>.
\<close>

lemma expo_bounds:
  assumes "0 < x"
  shows "pow2 (expo x) \<le> x \<and> x < pow2 (expo x + 1)"
proof (cases "1 \<le> x")
  case True
  let ?n = "\<lfloor>x\<rfloor>"
  have n: "0 < ?n" using True by simp
  have b: "2 ^ nat (bitlen ?n - 1) \<le> ?n" "?n < 2 ^ nat (bitlen ?n)"
    using bitlen_bounds[OF n] by auto
  have bl: "1 \<le> bitlen ?n" using n by (simp add: bitlen_alt_def)
  have "real_of_int (2 ^ nat (bitlen ?n - 1)) \<le> real_of_int ?n" using b(1) by linarith
  then have l: "2 ^ nat (bitlen ?n - 1) \<le> x" by (simp add: le_floor_iff) 
  have "?n + 1 \<le> 2 ^ nat (bitlen ?n)" using b(2) by simp
  then have "real_of_int (?n + 1) \<le> real_of_int (2 ^ nat (bitlen ?n))" by linarith
  then have u: "x < 2 ^ nat (bitlen ?n)" by (simp add: floor_less_iff) linarith
  show ?thesis using True l u bl by (simp add: expo_def pow2_def)
next
  case False
  let ?y = "1 / x"
  let ?n = "\<lceil>?y\<rceil> - 1"
  have y: "1 < ?y" using False assms by simp
  have n: "0 < ?n" using y by (simp add: less_ceiling_iff)
  have b: "2 ^ nat (bitlen ?n - 1) \<le> ?n" "?n < 2 ^ nat (bitlen ?n)"
    using bitlen_bounds[OF n] by auto
  have bl: "1 \<le> bitlen ?n" using n by (simp add: bitlen_alt_def)
  have "real_of_int ?n < ?y" by linarith
  moreover have "real_of_int (2 ^ nat (bitlen ?n - 1)) \<le> real_of_int ?n" using b(1) by linarith
  ultimately have l: "2 ^ nat (bitlen ?n - 1) < ?y" by simp
  have "\<lceil>?y\<rceil> \<le> 2 ^ nat (bitlen ?n)" using b(2) by simp
  then have "real_of_int \<lceil>?y\<rceil> \<le> real_of_int (2 ^ nat (bitlen ?n))" by linarith
  then have u: "?y \<le> 2 ^ nat (bitlen ?n)" by (simp add: ceiling_le_iff)
  have lo: "1 / 2 ^ nat (bitlen ?n) \<le> x"
    using u assms by (simp add: field_simps)
  have hi: "x < 1 / 2 ^ nat (bitlen ?n - 1)"
    using l assms by (simp add: field_simps)
  have e: "expo x = - bitlen ?n" using False by (simp add: expo_def)
  show ?thesis
  proof (cases "bitlen ?n = 1")
    case True
    then show ?thesis using lo hi e by (simp add: pow2_def)
  next
    case F: False
    then have "1 < bitlen ?n" using bl by simp
    then have "nat (- (1 - bitlen ?n)) = nat (bitlen ?n - 1)" by simp
    then show ?thesis using lo hi e \<open>1 < bitlen ?n\<close> by (simp add: pow2_def)
  qed
qed



lemma pow2_pos: "0 < pow2 e"
  by (simp add: pow2_def)

lemma round_even_nearest: "\<bar>of_int (round_even q) - q\<bar> \<le> 1 / 2"
proof -
  have "of_int \<lfloor>q\<rfloor> \<le> q" "q < of_int \<lfloor>q\<rfloor> + 1" by linarith+
  then show ?thesis
    by (auto simp: round_even_def Let_def abs_le_iff)
qed

lemma binary64_nearest:
  "\<bar>binary64 x - x\<bar> \<le> pow2 (max (expo \<bar>x\<bar>) (- 1022) - 52) / 2"
proof (cases "x = 0")
  case True
  then show ?thesis using pow2_pos[of "max (expo \<bar>x\<bar>) (- 1022) - 52"]
    by (simp add: binary64_def)
next
  case False
  let ?u = "pow2 (max (expo \<bar>x\<bar>) (- 1022) - 52)"
  let ?n = "round_even (\<bar>x\<bar> / ?u)"
  have u: "0 < ?u" by (rule pow2_pos)
  have b: "binary64 x = sgn x * (of_int ?n * ?u)"
    using False by (simp add: binary64_def Let_def)
  have x: "x = sgn x * \<bar>x\<bar>" by (simp add: sgn_mult_abs)
  have "binary64 x - x = sgn x * (of_int ?n * ?u - \<bar>x\<bar>)"
    using b x by (metis right_diff_distrib)
  then have "\<bar>binary64 x - x\<bar> = \<bar>of_int ?n * ?u - \<bar>x\<bar>\<bar>"
    using False by (simp add: abs_mult abs_sgn_eq)
  also have "of_int ?n * ?u - \<bar>x\<bar> = (of_int ?n - \<bar>x\<bar> / ?u) * ?u"
    using u by (simp add: field_simps)
  also have "\<bar>\<dots>\<bar> = \<bar>of_int ?n - \<bar>x\<bar> / ?u\<bar> * ?u"
    using u by (simp add: abs_mult)
  also have "\<dots> \<le> 1 / 2 * ?u"
    using round_even_nearest[of "\<bar>x\<bar> / ?u"] u by (intro mult_right_mono) auto
  finally show ?thesis by simp
qed

text \<open>
  \<open>binary64\<close> returns doubles and leaves doubles as they are; it keeps the sign. Doubling
  a double, the half of the floor of its double, and what is left of it after taking that
  half away, are doubles again: the buyback step computes on the pool without rounding.
\<close>

lemma pow2_powr: "pow2 e = 2 powr (real_of_int e)"
  by (auto simp: pow2_def powr_realpow[symmetric] powr_minus field_simps)

lemma pow2_add: "pow2 (a + b) = pow2 a * pow2 b"
  by (simp add: pow2_powr powr_add)

lemma pow2_diff: "pow2 (a - b) = pow2 a / pow2 b"
  by (simp add: pow2_powr powr_diff)

lemma pow2_mono: "a \<le> b \<Longrightarrow> pow2 a \<le> pow2 b"
  by (simp add: pow2_powr)

lemma pow2_le_iff: "pow2 a \<le> pow2 b \<longleftrightarrow> a \<le> b"
  by (simp add: pow2_powr)

lemma pow2_nonneg_int: "0 \<le> d \<Longrightarrow> pow2 d = real_of_int (2 ^ nat d)"
  by (simp add: pow2_def)

lemma round_even_of_int: "round_even (real_of_int n) = n"
  by (simp add: round_even_def)

lemma binary64_of_double:
  assumes "is_double x"
  shows "binary64 x = x"
proof (cases "x = 0")
  case True
  then show ?thesis by (simp add: binary64_def)
next
  case False
  from assms obtain k j where k: "\<bar>k\<bar> \<le> 2 ^ 53" and j: "- 1074 \<le> j"
    and x: "x = real_of_int k * pow2 j"
    by (auto simp: is_double_def)
  let ?e = "max (expo \<bar>x\<bar>) (- 1022)"
  let ?u = "pow2 (?e - 52)"
  have a: "\<bar>x\<bar> = real_of_int \<bar>k\<bar> * pow2 j"
    using x pow2_pos[of j] by (simp add: abs_mult)
  have a0: "0 < \<bar>x\<bar>" using False by simp
  have kr: "real_of_int \<bar>k\<bar> \<le> 2 ^ 53"
  proof -
    have "real_of_int \<bar>k\<bar> \<le> real_of_int (2 ^ 53)" using k by (simp only: of_int_le_iff)
    then show ?thesis by simp
  qed
  have q: "\<bar>x\<bar> / ?u = real_of_int \<bar>k\<bar> * pow2 (j - (?e - 52))"
    by (simp add: a pow2_diff)
  have "\<exists>n. \<bar>x\<bar> / ?u = real_of_int n"
  proof (cases "?e - 52 \<le> j")
    case True
    then have "pow2 (j - (?e - 52)) = real_of_int (2 ^ nat (j - (?e - 52)))"
      by (intro pow2_nonneg_int) simp
    then have "\<bar>x\<bar> / ?u = real_of_int (\<bar>k\<bar> * 2 ^ nat (j - (?e - 52)))"
      unfolding q by simp
    then show ?thesis by blast
  next
    case F: False
    then have e: "?e = expo \<bar>x\<bar>" using j by (auto simp: max_def)
    have "pow2 ?e \<le> \<bar>x\<bar>" using expo_bounds[OF a0] e by simp
    also have "\<dots> \<le> 2 ^ 53 * pow2 j"
      unfolding a using kr pow2_pos[of j]
      by (intro mult_right_mono) auto
    also have "\<dots> = pow2 (53 + j)"
      by (simp add: pow2_add) (simp add: pow2_def)
    finally have "?e \<le> 53 + j" by (simp only: pow2_le_iff)
    with F have ej: "?e = 53 + j" by arith
    have "pow2 (53 + j) \<le> real_of_int \<bar>k\<bar> * pow2 j"
      using expo_bounds[OF a0] e ej a by simp
    then have "2 ^ 53 * pow2 j \<le> real_of_int \<bar>k\<bar> * pow2 j"
      by (simp add: pow2_add) (simp add: pow2_def)
    then have "(2::real) ^ 53 \<le> real_of_int \<bar>k\<bar>"
      using pow2_pos[of j] by simp
    then have "real_of_int (2 ^ 53) \<le> real_of_int \<bar>k\<bar>" by simp
    then have "2 ^ 53 \<le> \<bar>k\<bar>" by (simp only: of_int_le_iff)
    with k have kk: "\<bar>k\<bar> = 2 ^ 53" by simp
    have "j - (?e - 52) = - 1" using ej by simp
    then have "pow2 (j - (?e - 52)) = 1 / 2" by (simp only: pow2_def) simp
    then have "\<bar>x\<bar> / ?u = real_of_int (2 ^ 52)"
      unfolding q kk by simp
    then show ?thesis by blast
  qed
  then obtain n where n: "\<bar>x\<bar> / ?u = real_of_int n" by blast
  have u: "0 < ?u" by (rule pow2_pos)
  have "real_of_int n * ?u = \<bar>x\<bar>" using n u by (simp add: field_simps)
  then have "sgn x * real_of_int (round_even (\<bar>x\<bar> / ?u)) * ?u = sgn x * \<bar>x\<bar>"
    unfolding n round_even_of_int by (simp add: mult.assoc)
  then show ?thesis
    using False by (simp add: binary64_def Let_def sgn_mult_abs)
qed


lemma round_even_bounds: "\<lfloor>q\<rfloor> \<le> round_even q \<and> round_even q \<le> \<lfloor>q\<rfloor> + 1"
  by (simp add: round_even_def Let_def)

lemma is_double_0: "is_double 0"
  unfolding is_double_def by (rule exI[of _ 0], rule exI[of _ 0]) simp

lemma is_double_binary64: "is_double (binary64 y)"
proof (cases "y = 0")
  case True
  then show ?thesis by (simp add: binary64_def is_double_0)
next
  case False
  let ?e = "max (expo \<bar>y\<bar>) (- 1022)"
  let ?u = "pow2 (?e - 52)"
  let ?n = "round_even (\<bar>y\<bar> / ?u)"
  have a0: "0 < \<bar>y\<bar>" using False by simp
  have u: "0 < ?u" by (rule pow2_pos)
  have "\<bar>y\<bar> < pow2 (expo \<bar>y\<bar> + 1)" using expo_bounds[OF a0] by simp
  also have "\<dots> \<le> pow2 (?e + 1)" by (intro pow2_mono) simp
  also have "\<dots> = 2 ^ 53 * ?u"
  proof -
    have "?e + 1 = 53 + (?e - 52)" by arith
    then have "pow2 (?e + 1) = pow2 (53 + (?e - 52))" by (simp only:)
    also have "\<dots> = pow2 53 * ?u" by (rule pow2_add)
    also have "pow2 53 = 2 ^ 53" by (simp add: pow2_def)
    finally show ?thesis .
  qed
  finally have q: "\<bar>y\<bar> / ?u < 2 ^ 53" using u by (simp add: field_simps)
  have q0: "0 \<le> \<bar>y\<bar> / ?u" using u by simp
  have f0: "0 \<le> \<lfloor>\<bar>y\<bar> / ?u\<rfloor>" using q0 by simp
  have "\<lfloor>\<bar>y\<bar> / ?u\<rfloor> < 2 ^ 53"
  proof -
    have "\<bar>y\<bar> / ?u < real_of_int (2 ^ 53)" using q by simp
    then show ?thesis by (simp only: floor_less_iff)
  qed
  then have n: "0 \<le> ?n" "?n \<le> 2 ^ 53"
    using round_even_bounds[of "\<bar>y\<bar> / ?u"] f0 by linarith+
  have b: "binary64 y = sgn y * (real_of_int ?n * ?u)"
    using False by (simp add: binary64_def Let_def)
  show ?thesis
  proof (cases "0 < y")
    case True
    then have "binary64 y = real_of_int ?n * pow2 (?e - 52)" using b by simp
    moreover have "\<bar>?n\<bar> \<le> 2 ^ 53" using n by simp
    moreover have "- 1074 \<le> ?e - 52" by simp
    ultimately show ?thesis unfolding is_double_def by blast
  next
    case F: False
    then have "y < 0" using False by simp
    then have "binary64 y = real_of_int (- ?n) * pow2 (?e - 52)" using b by simp
    moreover have "\<bar>- ?n\<bar> \<le> 2 ^ 53" using n by simp
    moreover have "- 1074 \<le> ?e - 52" by simp
    ultimately show ?thesis unfolding is_double_def by blast
  qed
qed

lemma is_double_of_int: "0 \<le> c \<Longrightarrow> c \<le> 2 ^ 53 \<Longrightarrow> is_double (real_of_int c)"
  unfolding is_double_def by (rule exI[of _ c], rule exI[of _ 0]) (simp add: pow2_def)

lemma is_double_twice:
  assumes "is_double x"
  shows "is_double (2 * x)"
proof -
  from assms obtain k j where k: "\<bar>k\<bar> \<le> 2 ^ 53" and j: "- 1074 \<le> j"
    and x: "x = real_of_int k * pow2 j"
    by (auto simp: is_double_def)
  have "pow2 (1 + j) = 2 * pow2 j" by (simp add: pow2_add) (simp add: pow2_def)
  then have "2 * x = real_of_int k * pow2 (1 + j)" using x by simp
  moreover have "- 1074 \<le> 1 + j" using j by simp
  ultimately show ?thesis using k unfolding is_double_def by blast
qed

lemma binary64_sign: "(0 \<le> x \<longrightarrow> 0 \<le> binary64 x) \<and> (x \<le> 0 \<longrightarrow> binary64 x \<le> 0)"
proof (cases "x = 0")
  case True
  then show ?thesis by (simp add: binary64_def)
next
  case False
  let ?u = "pow2 (max (expo \<bar>x\<bar>) (- 1022) - 52)"
  have u: "0 < ?u" by (rule pow2_pos)
  have "0 \<le> \<bar>x\<bar> / ?u" using u by simp
  then have "0 \<le> \<lfloor>\<bar>x\<bar> / ?u\<rfloor>" by simp
  then have n: "0 \<le> round_even (\<bar>x\<bar> / ?u)"
    using round_even_bounds[of "\<bar>x\<bar> / ?u"] by linarith
  have b: "binary64 x = sgn x * (real_of_int (round_even (\<bar>x\<bar> / ?u)) * ?u)"
    using False by (simp add: binary64_def Let_def)
  have p: "0 \<le> real_of_int (round_even (\<bar>x\<bar> / ?u)) * ?u" using n u by simp
  show ?thesis
  proof (cases "0 < x")
    case True
    then show ?thesis using b p by simp
  next
    case F: False
    then have "x < 0" using False by simp
    then show ?thesis using b p by simp
  qed
qed

lemma half_floor_double:
  assumes "is_double x" and "0 < x"
  shows "0 \<le> \<lfloor>2 * x\<rfloor> \<and> is_double (real_of_int \<lfloor>2 * x\<rfloor> * (1 / 2))
       \<and> is_double (x - real_of_int \<lfloor>2 * x\<rfloor> * (1 / 2))"
proof -
  from assms obtain k j where k: "\<bar>k\<bar> \<le> 2 ^ 53" and j: "- 1074 \<le> j"
    and x: "x = real_of_int k * pow2 j"
    by (auto simp: is_double_def)
  have k0: "0 < k"
  proof -
    have "0 < real_of_int k * pow2 j" using assms(2) x by simp
    then have "0 < real_of_int k" using pow2_pos[of j] by (simp add: zero_less_mult_iff)
    then show ?thesis by simp
  qed
  have f0: "0 \<le> \<lfloor>2 * x\<rfloor>" using assms(2) by simp
  have tw: "2 * x = real_of_int k * pow2 (1 + j)"
    using x by (simp add: pow2_add) (simp add: pow2_def)
  show ?thesis
  proof (cases "- 1 \<le> j")
    case True
    then have "pow2 (1 + j) = real_of_int (2 ^ nat (1 + j))" by (intro pow2_nonneg_int) simp
    then have i: "2 * x = real_of_int (k * 2 ^ nat (1 + j))" using tw by simp
    have "real_of_int \<lfloor>2 * x\<rfloor> = 2 * x" unfolding i floor_of_int by (rule refl)
    then have h: "real_of_int \<lfloor>2 * x\<rfloor> * (1 / 2) = x" by linarith
    show ?thesis using f0 assms(1) is_double_0 unfolding h by simp
  next
    case False
    define n where "n = nat (- (1 + j))"
    have n: "pow2 (1 + j) = 1 / 2 ^ n" "pow2 j = 1 / 2 ^ Suc n"
      using False by (simp_all add: pow2_def n_def Suc_nat_eq_nat_zadd1 flip: power_Suc) 
    have "2 * x = real_of_int k / real_of_int (2 ^ n)" using tw n by simp
    then have fl: "\<lfloor>2 * x\<rfloor> = k div 2 ^ n" by (simp only: floor_divide_of_int_eq)
    have d1: "k div 2 ^ n \<le> k" using k0 int_div_le_self by blast
    have kb: "k \<le> 2 ^ 53" using k by simp
    have "real_of_int \<lfloor>2 * x\<rfloor> * (1 / 2) = real_of_int (k div 2 ^ n) * pow2 (- 1)"
      unfolding fl by (simp add: pow2_def)
    moreover have "\<bar>k div 2 ^ n\<bar> \<le> 2 ^ 53" using d1 kb f0 fl by simp
    ultimately have a: "is_double (real_of_int \<lfloor>2 * x\<rfloor> * (1 / 2))"
      unfolding is_double_def by (intro exI[of _ "k div 2 ^ n"] exI[of _ "- 1"]) simp
    have "k = 2 ^ n * (k div 2 ^ n) + k mod 2 ^ n" by simp
    then have "real_of_int k = 2 ^ n * real_of_int (k div 2 ^ n) + real_of_int (k mod 2 ^ n)"
      by (metis of_int_add of_int_mult of_int_numeral of_int_power)
    then have dm: "real_of_int k / 2 ^ Suc n - real_of_int (k div 2 ^ n) * (1 / 2)
        = real_of_int (k mod 2 ^ n) * (1 / 2 ^ Suc n)"
      by (simp add: field_simps)
    have r: "real_of_int \<lfloor>2 * x\<rfloor> = real_of_int (k div 2 ^ n)" using fl by simp
    have xk: "x = real_of_int k / 2 ^ Suc n" using x n(2) by simp
    have "x - real_of_int \<lfloor>2 * x\<rfloor> * (1 / 2)
        = real_of_int k / 2 ^ Suc n - real_of_int (k div 2 ^ n) * (1 / 2)"
      by (simp only: r) (simp only: xk)
    then have "x - real_of_int \<lfloor>2 * x\<rfloor> * (1 / 2) = real_of_int (k mod 2 ^ n) * pow2 j"
      using dm n(2) by simp
    moreover have "0 \<le> k mod 2 ^ n" by simp
    moreover have "k mod 2 ^ n \<le> k" using k0 by (simp add: zmod_le_nonneg_dividend)
    ultimately have b: "is_double (x - real_of_int \<lfloor>2 * x\<rfloor> * (1 / 2))"
      unfolding is_double_def using kb j
      by (intro exI[of _ "k mod 2 ^ n"] exI[of _ j]) simp
    show ?thesis using f0 a b by simp
  qed
qed

section \<open>The connected wallet under an update of the wallet list\<close>

lemma find_map_address:
  assumes "\<And>w. address (f w) = address w"
  shows "find (\<lambda>w. address w = a) (map (\<lambda>w. if address w = a then f w else w) ws)
         = map_option f (find (\<lambda>w. address w = a) ws)"
  using assms by (induction ws) auto

lemma me_connected: "me s = Some m \<Longrightarrow> connected_addr s = Some (address m)"
  by (auto simp: me_def find_Some_iff split: option.splits)

lemma me_update:
  assumes "me s = Some m" and "\<And>w. address (f w) = address w"
    and "connected_addr s' = connected_addr s"
    and "wallets s' = map (\<lambda>w. if address w = address m then f w else w) (wallets s)"
  shows "me s' = Some (f m)"
proof -
  have c: "connected_addr s = Some (address m)" using assms(1) by (rule me_connected)
  have "find (\<lambda>w. address w = address m) (wallets s) = Some m"
    using assms(1) c by (simp add: me_def)
  then show ?thesis
    using c assms(2,3,4) by (simp add: me_def find_map_address)
qed

lemma me_seed_connected: "me seed_connected = Some W1"
  by (simp add: me_def seed_connected_def seed_def W1_def W2_def W3_def)

lemma seed_connected_fields:
  "circulatingGOV seed_connected = 625000" "circulatingMST seed_connected = 112500"
  "params seed_connected = \<lparr>apiFeeUSDC = 1, revenueSharePct = 90, daoTreasuryPct = 5,
                       buybackPct = 5, buybackActive = True, govStakeBoost = 2\<rparr>"
  by (simp_all add: seed_connected_def seed_def)

lemma connect_seed: "connect seed = Some (seed_connected, Some WalletConnected)"
  by (simp add: connect_def seed_connected_def seed_def)

section \<open>Purchase\<close>

text \<open>
  C7. For a connected identity \<open>m\<close> whose payment-token balance covers \<open>amount\<close> and with
  \<open>floor (amount / 0.5) > 0\<close>, \<open>buyMST\<close> (exact arithmetic) leaves the buyer's wallet equal
  to \<open>m\<close> with the security-token balance increased by \<open>floor (amount / 0.5)\<close> and the
  payment-token balance decreased by \<open>floor (amount / 0.5) * 0.5\<close>, increases the
  circulating security-token supply by \<open>floor (amount / 0.5)\<close>, and notifies
  "Purchased MST". With a payment-token balance below \<open>amount\<close> the state is returned
  unchanged with the notification "Insufficient USDC".
\<close>

theorem buyMST_purchase:
  assumes "me s = Some m"
  shows "(amount \<le> usdc m \<and> 0 < \<lfloor>amount / 0.5\<rfloor> \<longrightarrow>
            me (fst (buyMST exact s amount))
              = Some (m\<lparr>usdc := usdc m - of_int \<lfloor>amount / 0.5\<rfloor> * 0.5,
                        mst := mst m + of_int \<lfloor>amount / 0.5\<rfloor>\<rparr>)
            \<and> circulatingMST (fst (buyMST exact s amount))
              = circulatingMST s + of_int \<lfloor>amount / 0.5\<rfloor>
            \<and> snd (buyMST exact s amount) = Some PurchasedMST)
       \<and> (usdc m < amount \<longrightarrow> buyMST exact s amount = (s, Some InsufficientUSDC))"
proof (intro conjI impI)
  assume h: "amount \<le> usdc m \<and> 0 < \<lfloor>amount / 0.5\<rfloor>"
  let ?q = "real_of_int \<lfloor>amount / 0.5\<rfloor>"
  let ?f = "\<lambda>w. w\<lparr>usdc := usdc w - ?q * 0.5, mst := mst w + ?q\<rparr>"
  have b: "buyMST exact s amount =
      (s\<lparr>wallets := map (\<lambda>w. if address w = address m then ?f w else w) (wallets s),
         circulatingMST := circulatingMST s + ?q\<rparr>, Some PurchasedMST)"
    using assms h
    by (simp add: buyMST_def exact_def jfloor_def jdiv_def jsub_def jmul_def jadd_def Let_def)
  show "me (fst (buyMST exact s amount)) = Some (m\<lparr>usdc := usdc m - ?q * 0.5, mst := mst m + ?q\<rparr>)"
    unfolding b by (rule me_update[OF assms, where f = ?f]) simp_all
  show "circulatingMST (fst (buyMST exact s amount)) = circulatingMST s + ?q"
    unfolding b by simp
  show "snd (buyMST exact s amount) = Some PurchasedMST"
    unfolding b by simp
next
  assume "usdc m < amount"
  then show "buyMST exact s amount = (s, Some InsufficientUSDC)"
    using assms by (simp add: buyMST_def)
qed

theorem buyMST_purchase_witness:
  "me seed_connected = Some W1 \<and> (50::real) \<le> usdc W1 \<and> 0 < \<lfloor>(50::real) / 0.5\<rfloor>
   \<and> me (fst (buyMST exact seed_connected 50)) = Some (W1\<lparr>usdc := 9950, mst := 100100\<rparr>)
   \<and> circulatingMST (fst (buyMST exact seed_connected 50)) = 112600
   \<and> usdc W1 < 20000
   \<and> buyMST exact seed_connected 20000 = (seed_connected, Some InsufficientUSDC)"
proof -
  have c: "circulatingMST seed_connected = 112500"
    by (simp add: seed_connected_def seed_def)
  have u: "usdc W1 = 10000" "mst W1 = 100000" by (simp_all add: W1_def)
  show ?thesis
    using buyMST_purchase[OF me_seed_connected, of 50]
      buyMST_purchase[OF me_seed_connected, of 20000] c u
    by (simp add: me_seed_connected)
qed

section \<open>Airdrop\<close>

lemma tenth_binary64:
  "binary64 (1 / 10) = 3602879701896397 / 36028797018963968"
  "jadd binary64 500000 (3602879701896397 / 36028797018963968) = 4294968154993459 / 8589934592"
  "jadd binary64 625000 (3602879701896397 / 36028797018963968) = 5368709978993459 / 8589934592"
  by code_simp+

lemma absorbed_binary64:
  "jadd binary64 500000 (1 / 68719476736) = 500000"
  "jadd binary64 625000 (1 / 68719476736) = 625000"
  by code_simp+

text \<open>
  The handler \<open>airdropGOV\<close> is called from the airdrop box only, whose button is disabled
  for an amount \<open>\<le> 0\<close>.

  C6, as stated, fails in its second half: at the airdrop box the positive amount
  \<open>2^-36\<close> leaves the governance balance 500000 of the connected seed wallet and the
  circulating governance supply 625000 as they were, since both sums round back to the
  old values in the binary64 arithmetic of the code; and the amount 0.1 (as a double)
  increases the balance by 0.09999999997671694, not by the amount.
\<close>

theorem airdrop_absorbed_counterexample:
  "(0::real) < 1 / 2 ^ 36 \<and> me seed_connected = Some W1 \<and> gov W1 = 500000
   \<and> circulatingGOV seed_connected = 625000
   \<and> snd (AirdropBox_onClick binary64 seed_connected (1 / 2 ^ 36)) = Some AirdropReceived
   \<and> me (fst (AirdropBox_onClick binary64 seed_connected (1 / 2 ^ 36))) = Some W1
   \<and> circulatingGOV (fst (AirdropBox_onClick binary64 seed_connected (1 / 2 ^ 36))) = 625000
   \<and> me (fst (AirdropBox_onClick binary64 seed_connected (binary64 (1 / 10))))
        = Some (W1\<lparr>gov := 4294968154993459 / 8589934592\<rparr>)
   \<and> 4294968154993459 / 8589934592 - gov W1 \<noteq> binary64 (1 / 10)"
  by (simp add: AirdropBox_onClick_def airdropGOV_def me_seed_connected seed_connected_fields
        tenth_binary64(1))
     (simp add: me_def seed_connected_def seed_def W1_def W2_def W3_def absorbed_binary64
        tenth_binary64)

text \<open>
  C6 as amended. At the airdrop box an amount \<open>\<le> 0\<close> is a no-op: the state is returned
  unchanged. For every amount \<open>> 0\<close>, whatever the rounding \<open>r\<close> of the arithmetic, the
  recipient's governance balance and the circulating governance supply become the
  rounded sums \<open>r (old + amount)\<close>; in binary64 both increase by exactly the amount
  whenever the two sums are doubles, as for the whole amounts of the witness.
\<close>

theorem airdrop_at_the_box:
  assumes "me s = Some m"
  shows "(amt \<le> 0 \<longrightarrow> AirdropBox_onClick r s amt = (s, None))
       \<and> (0 < amt \<longrightarrow>
            me (fst (AirdropBox_onClick r s amt)) = Some (m\<lparr>gov := r (gov m + amt)\<rparr>)
            \<and> circulatingGOV (fst (AirdropBox_onClick r s amt)) = r (circulatingGOV s + amt)
            \<and> snd (AirdropBox_onClick r s amt) = Some AirdropReceived)
       \<and> (0 < amt \<and> is_double (gov m + amt) \<and> is_double (circulatingGOV s + amt) \<longrightarrow>
            me (fst (AirdropBox_onClick binary64 s amt)) = Some (m\<lparr>gov := gov m + amt\<rparr>)
            \<and> circulatingGOV (fst (AirdropBox_onClick binary64 s amt)) = circulatingGOV s + amt)"
proof -
  have g: "me (fst (AirdropBox_onClick r' s amt)) = Some (m\<lparr>gov := r' (gov m + amt)\<rparr>)
      \<and> circulatingGOV (fst (AirdropBox_onClick r' s amt)) = r' (circulatingGOV s + amt)
      \<and> snd (AirdropBox_onClick r' s amt) = Some AirdropReceived" if "0 < amt" for r'
  proof -
    let ?f = "\<lambda>w. w\<lparr>gov := r' (gov w + amt)\<rparr>"
    have b: "AirdropBox_onClick r' s amt =
      (s\<lparr>wallets := map (\<lambda>w. if address w = address m then ?f w else w) (wallets s),
         circulatingGOV := r' (circulatingGOV s + amt)\<rparr>, Some AirdropReceived)"
      using assms that by (simp add: AirdropBox_onClick_def airdropGOV_def jadd_def)
    have "me (fst (AirdropBox_onClick r' s amt)) = Some (?f m)"
      unfolding b by (rule me_update[OF assms, where f = ?f]) simp_all
    then show ?thesis by (simp add: b)
  qed
  show ?thesis
    using g[of r] g[of binary64] by (simp add: AirdropBox_onClick_def binary64_of_double)
qed

theorem airdrop_at_the_box_witness:
  "me seed_connected = Some W1
   \<and> (0::real) \<le> 0 \<and> AirdropBox_onClick binary64 seed_connected 0 = (seed_connected, None)
   \<and> (- 100::real) \<le> 0
   \<and> AirdropBox_onClick binary64 seed_connected (- 100) = (seed_connected, None)
   \<and> (0::real) < 5000 \<and> is_double (gov W1 + 5000)
   \<and> is_double (circulatingGOV seed_connected + 5000)
   \<and> me (fst (AirdropBox_onClick binary64 seed_connected 5000)) = Some (W1\<lparr>gov := 505000\<rparr>)
   \<and> circulatingGOV (fst (AirdropBox_onClick binary64 seed_connected 5000)) = 630000
   \<and> snd (AirdropBox_onClick binary64 seed_connected 5000) = Some AirdropReceived"
proof -
  have g: "gov W1 = 500000" by (simp add: W1_def)
  have d1: "is_double (gov W1 + 5000)"
    using is_double_of_int[of 505000] by (simp add: g)
  have d2: "is_double (circulatingGOV seed_connected + 5000)"
    using is_double_of_int[of 630000] by (simp add: seed_connected_fields)
  show ?thesis
    using airdrop_at_the_box[OF me_seed_connected, of 5000 binary64]
      airdrop_at_the_box[OF me_seed_connected, of 0 binary64]
      airdrop_at_the_box[OF me_seed_connected, of "- 100" binary64] d1 d2 g
    by (simp add: me_seed_connected seed_connected_fields binary64_of_double)
qed

section \<open>Staking\<close>



section \<open>Executing a proposal\<close>

lemma distinct_id_eq:
  "distinct (map id_proposal ps) \<Longrightarrow> p \<in> set ps \<Longrightarrow> q \<in> set ps
     \<Longrightarrow> id_proposal q = id_proposal p \<Longrightarrow> q = p"
  by (meson distinct_map inj_onD)

lemma find_distinct_id:
  "distinct (map id_proposal ps) \<Longrightarrow> p \<in> set ps
     \<Longrightarrow> find (\<lambda>q. id_proposal q = id_proposal p) ps = Some p"
proof (induction ps)
  case Nil
  then show ?case by simp
next
  case (Cons a ps)
  then show ?case by (cases "a = p") (auto simp: image_iff)
qed

lemma execute_noop:
  assumes "\<forall>q\<in>set (proposals s). id_proposal q = i \<longrightarrow> executed q \<or> now < endsAt q"
  shows "execute now s i = (s, Some ProposalExecuted)"
proof -
  have m: "map (\<lambda>p. if id_proposal p \<noteq> i \<or> executed p \<or> now < endsAt p then p
             else let passed = againstVotes p < forVotes p in
               if \<not> passed then p\<lparr>executed := True\<rparr>
               else p\<lparr>executed := True, description := description p @ executed_mark\<rparr>)
           (proposals s) = proposals s"
    using assms by (intro map_idI) auto
  have f: "(case find (\<lambda>pp. id_proposal pp = i) (proposals s) of
                     None \<Rightarrow> params s
                   | Some prop \<Rightarrow>
                       if now < endsAt prop \<or> executed prop = True then params s
                       else if forVotes prop \<le> againstVotes prop then params s
                       else merge_params (params s) (paramChanges prop)) = params s"
    using assms by (auto split: option.splits simp: find_Some_iff)
  show ?thesis
    unfolding execute_def m f by simp
qed

lemma execute_marks:
  assumes "distinct (map id_proposal (proposals s))" "p \<in> set (proposals s)"
    and "executed p \<or> endsAt p \<le> now"
  shows "\<forall>q\<in>set (proposals (fst (execute now s (id_proposal p)))).
           id_proposal q = id_proposal p \<longrightarrow> executed q"
proof
  fix q assume "q \<in> set (proposals (fst (execute now s (id_proposal p))))"
  then obtain x where x: "x \<in> set (proposals s)"
    and q: "q = (if id_proposal x \<noteq> id_proposal p \<or> executed x \<or> now < endsAt x then x
             else let passed = againstVotes x < forVotes x in
               if \<not> passed then x\<lparr>executed := True\<rparr>
               else x\<lparr>executed := True, description := description x @ executed_mark\<rparr>)"
    by (auto simp: execute_def)
  show "id_proposal q = id_proposal p \<longrightarrow> executed q"
  proof
    assume "id_proposal q = id_proposal p"
    then have "id_proposal x = id_proposal p"
      using q by (auto simp: Let_def split: if_splits)
    then have "x = p" using assms(1,2) x by (rule_tac distinct_id_eq)
    then show "executed q" using q assms(3) by (auto simp: Let_def)
  qed
qed

lemma scenarioC_facts:
  "distinct (map id_proposal (proposals scenarioC))"
  "P_for \<in> set (proposals scenarioC)" "P_against \<in> set (proposals scenarioC)"
  "id_proposal P_for = ''p-for''" "id_proposal P_against = ''p-against''"
  "\<not> executed P_for" "\<not> executed P_against" "endsAt P_for = 1000" "endsAt P_against = 1000"
  by (simp_all add: scenarioC_def P_for_def P_against_def)

text \<open>
  C3. In a state whose proposals have distinct identifiers (they are drawn by
  \<open>crypto.randomUUID()\<close>), for a proposal \<open>p\<close> of the list that is not executed and whose
  deadline has passed (\<open>endsAt p \<le> now\<close>), \<open>execute\<close> sets \<open>executed\<close> of \<open>p\<close> to true
  (appending the executed mark to its description when it passed) and leaves the other
  proposals as they are. Exactly when the for-votes are strictly greater than the
  against-votes, every global parameter that the proposal overrides takes the value of
  the override and every other parameter keeps its current value; on a tie or an
  against-majority the parameters stay as they are. On a proposal that is already
  executed, or whose deadline has not passed, \<open>execute\<close> returns the state unchanged. The
  witness is the scenario with for = 100, against = 50 and with for = 50, against = 100,
  on parameters that all differ from the seed's: the fee and the boost are overridden,
  the other four keep their current values.
\<close>

theorem execute_closed_proposal:
  assumes "distinct (map id_proposal (proposals s))" and "p \<in> set (proposals s)"
  shows "(\<not> executed p \<and> endsAt p \<le> now \<longrightarrow>
           fst (execute now s (id_proposal p))
             = s\<lparr>proposals := map (\<lambda>q. if id_proposal q = id_proposal p
                     then p\<lparr>executed := True,
                            description := (if againstVotes p < forVotes p
                                            then description p @ executed_mark
                                            else description p)\<rparr>
                     else q) (proposals s),
                 params := (if againstVotes p < forVotes p
                            then \<lparr>apiFeeUSDC = (case apiFeeUSDC_opt (paramChanges p) of
                                              None \<Rightarrow> apiFeeUSDC (params s) | Some v \<Rightarrow> v),
                               revenueSharePct = (case revenueSharePct_opt (paramChanges p) of
                                              None \<Rightarrow> revenueSharePct (params s) | Some v \<Rightarrow> v),
                               daoTreasuryPct = (case daoTreasuryPct_opt (paramChanges p) of
                                              None \<Rightarrow> daoTreasuryPct (params s) | Some v \<Rightarrow> v),
                               buybackPct = (case buybackPct_opt (paramChanges p) of
                                              None \<Rightarrow> buybackPct (params s) | Some v \<Rightarrow> v),
                               buybackActive = (case buybackActive_opt (paramChanges p) of
                                              None \<Rightarrow> buybackActive (params s) | Some v \<Rightarrow> v),
                               govStakeBoost = (case govStakeBoost_opt (paramChanges p) of
                                              None \<Rightarrow> govStakeBoost (params s) | Some v \<Rightarrow> v)\<rparr>
                            else params s)\<rparr>)
       \<and> (executed p \<or> now < endsAt p \<longrightarrow> fst (execute now s (id_proposal p)) = s)"
proof (intro conjI impI)
  assume h: "\<not> executed p \<and> endsAt p \<le> now"
  have f: "find (\<lambda>pp. id_proposal pp = id_proposal p) (proposals s) = Some p"
    using assms by (rule find_distinct_id)
  have m: "map (\<lambda>q. if id_proposal q \<noteq> id_proposal p \<or> executed q \<or> now < endsAt q then q
             else let passed = againstVotes q < forVotes q in
               if \<not> passed then q\<lparr>executed := True\<rparr>
               else q\<lparr>executed := True, description := description q @ executed_mark\<rparr>)
           (proposals s)
         = map (\<lambda>q. if id_proposal q = id_proposal p
                     then p\<lparr>executed := True,
                            description := (if againstVotes p < forVotes p
                                            then description p @ executed_mark
                                            else description p)\<rparr>
                     else q) (proposals s)"
  proof (rule map_cong[OF refl])
    fix q assume q: "q \<in> set (proposals s)"
    show "(if id_proposal q \<noteq> id_proposal p \<or> executed q \<or> now < endsAt q then q
             else let passed = againstVotes q < forVotes q in
               if \<not> passed then q\<lparr>executed := True\<rparr>
               else q\<lparr>executed := True, description := description q @ executed_mark\<rparr>)
         = (if id_proposal q = id_proposal p
                     then p\<lparr>executed := True,
                            description := (if againstVotes p < forVotes p
                                            then description p @ executed_mark
                                            else description p)\<rparr>
                     else q)"
    proof (cases "id_proposal q = id_proposal p")
      case True
      then have "q = p" using assms q by (rule_tac distinct_id_eq)
      then show ?thesis using h by (simp add: Let_def)
    next
      case False
      then show ?thesis by simp
    qed
  qed
  have mp: "merge_params (params s) (paramChanges p) = \<lparr>apiFeeUSDC = (case apiFeeUSDC_opt (paramChanges p) of
                                              None \<Rightarrow> apiFeeUSDC (params s) | Some v \<Rightarrow> v),
                               revenueSharePct = (case revenueSharePct_opt (paramChanges p) of
                                              None \<Rightarrow> revenueSharePct (params s) | Some v \<Rightarrow> v),
                               daoTreasuryPct = (case daoTreasuryPct_opt (paramChanges p) of
                                              None \<Rightarrow> daoTreasuryPct (params s) | Some v \<Rightarrow> v),
                               buybackPct = (case buybackPct_opt (paramChanges p) of
                                              None \<Rightarrow> buybackPct (params s) | Some v \<Rightarrow> v),
                               buybackActive = (case buybackActive_opt (paramChanges p) of
                                              None \<Rightarrow> buybackActive (params s) | Some v \<Rightarrow> v),
                               govStakeBoost = (case govStakeBoost_opt (paramChanges p) of
                                              None \<Rightarrow> govStakeBoost (params s) | Some v \<Rightarrow> v)\<rparr>"
    by (simp add: merge_params_def)
  show "fst (execute now s (id_proposal p))
             = s\<lparr>proposals := map (\<lambda>q. if id_proposal q = id_proposal p
                     then p\<lparr>executed := True,
                            description := (if againstVotes p < forVotes p
                                            then description p @ executed_mark
                                            else description p)\<rparr>
                     else q) (proposals s),
                 params := (if againstVotes p < forVotes p
                            then \<lparr>apiFeeUSDC = (case apiFeeUSDC_opt (paramChanges p) of
                                              None \<Rightarrow> apiFeeUSDC (params s) | Some v \<Rightarrow> v),
                               revenueSharePct = (case revenueSharePct_opt (paramChanges p) of
                                              None \<Rightarrow> revenueSharePct (params s) | Some v \<Rightarrow> v),
                               daoTreasuryPct = (case daoTreasuryPct_opt (paramChanges p) of
                                              None \<Rightarrow> daoTreasuryPct (params s) | Some v \<Rightarrow> v),
                               buybackPct = (case buybackPct_opt (paramChanges p) of
                                              None \<Rightarrow> buybackPct (params s) | Some v \<Rightarrow> v),
                               buybackActive = (case buybackActive_opt (paramChanges p) of
                                              None \<Rightarrow> buybackActive (params s) | Some v \<Rightarrow> v),
                               govStakeBoost = (case govStakeBoost_opt (paramChanges p) of
                                              None \<Rightarrow> govStakeBoost (params s) | Some v \<Rightarrow> v)\<rparr>
                            else params s)\<rparr>"
    unfolding execute_def m f using h by (auto simp: mp)
next
  assume h: "executed p \<or> now < endsAt p"
  have "\<forall>q\<in>set (proposals s). id_proposal q = id_proposal p \<longrightarrow> executed q \<or> now < endsAt q"
    using assms h distinct_id_eq by blast
  then show "fst (execute now s (id_proposal p)) = s"
    by (simp add: execute_noop)
qed



lemma scenarioC_tuned_facts:
  "distinct (map id_proposal (proposals scenarioC_tuned))"
  "P_for \<in> set (proposals scenarioC_tuned)" "P_against \<in> set (proposals scenarioC_tuned)"
  "proposals scenarioC_tuned = [P_for, P_against]"
  "params scenarioC_tuned = \<lparr>apiFeeUSDC = 2, revenueSharePct = 85,
      daoTreasuryPct = 10, buybackPct = 5, buybackActive = False, govStakeBoost = 3 / 2\<rparr>"
  by (simp_all add: scenarioC_tuned_def scenarioC_def P_for_def P_against_def)

theorem execute_closed_proposal_witness:
  "distinct (map id_proposal (proposals scenarioC_tuned))
   \<and> P_for \<in> set (proposals scenarioC_tuned) \<and> P_against \<in> set (proposals scenarioC_tuned)
   \<and> params scenarioC_tuned = \<lparr>apiFeeUSDC = 2, revenueSharePct = 85,
        daoTreasuryPct = 10, buybackPct = 5, buybackActive = False, govStakeBoost = 3 / 2\<rparr>
   \<and> apiFeeUSDC_opt (paramChanges P_for) = Some 0.9
   \<and> govStakeBoost_opt (paramChanges P_for) = Some 3
   \<and> \<not> executed P_for \<and> endsAt P_for \<le> 2000 \<and> forVotes P_for = 100 \<and> againstVotes P_for = 50
   \<and> fst (execute 2000 scenarioC_tuned ''p-for'')
       = scenarioC_tuned\<lparr>proposals := [P_for\<lparr>executed := True,
                                       description := ''why'' @ executed_mark\<rparr>, P_against],
                   params := \<lparr>apiFeeUSDC = 0.9, revenueSharePct = 85, daoTreasuryPct = 10,
                              buybackPct = 5, buybackActive = False, govStakeBoost = 3\<rparr>\<rparr>
   \<and> \<not> executed P_against \<and> endsAt P_against \<le> 2000
   \<and> forVotes P_against = 50 \<and> againstVotes P_against = 100
   \<and> fst (execute 2000 scenarioC_tuned ''p-against'')
       = scenarioC_tuned\<lparr>proposals := [P_for, P_against\<lparr>executed := True\<rparr>]\<rparr>
   \<and> 500 < endsAt P_for
   \<and> fst (execute 500 scenarioC_tuned ''p-for'') = scenarioC_tuned"
proof -
  have v: "forVotes P_for = 100" "againstVotes P_for = 50" "description P_for = ''why''"
    "forVotes P_against = 50" "againstVotes P_against = 100" "description P_against = ''why''"
    "paramChanges P_for = fee_cut"
    by (simp_all add: P_for_def P_against_def)
  have a: "fst (execute 2000 scenarioC_tuned ''p-for'')
       = scenarioC_tuned\<lparr>proposals := [P_for\<lparr>executed := True,
                                       description := ''why'' @ executed_mark\<rparr>, P_against],
                   params := \<lparr>apiFeeUSDC = 0.9, revenueSharePct = 85, daoTreasuryPct = 10,
                              buybackPct = 5, buybackActive = False, govStakeBoost = 3\<rparr>\<rparr>"
    using execute_closed_proposal[OF scenarioC_tuned_facts(1) scenarioC_tuned_facts(2), of 2000]
    by (simp add: scenarioC_facts v scenarioC_tuned_facts(4,5) fee_cut_def)
  have b: "fst (execute 2000 scenarioC_tuned ''p-against'')
       = scenarioC_tuned\<lparr>proposals := [P_for, P_against\<lparr>executed := True\<rparr>]\<rparr>"
    using execute_closed_proposal[OF scenarioC_tuned_facts(1) scenarioC_tuned_facts(3), of 2000]
    by (simp add: scenarioC_facts v scenarioC_tuned_facts(4,5))
  have c: "fst (execute 500 scenarioC_tuned ''p-for'') = scenarioC_tuned"
    using execute_closed_proposal[OF scenarioC_tuned_facts(1) scenarioC_tuned_facts(2), of 500]
    by (simp add: scenarioC_facts)
  show ?thesis
    using a b c by (simp add: scenarioC_facts v scenarioC_tuned_facts fee_cut_def)
qed

section \<open>Idempotence of execute\<close>

lemma execute_keeps_executed:
  "\<forall>k<length (proposals s). executed (proposals s ! k)
      \<longrightarrow> proposals (fst (execute now s i)) ! k = proposals s ! k"
  by (simp add: execute_def)

lemma vote_keeps_executed:
  "\<forall>k<length (proposals s). executed (proposals s ! k)
      \<longrightarrow> executed (proposals (fst (vote r now s i c)) ! k)"
  by (simp add: vote_def Let_def split: option.splits)

lemma executedC_proposals:
  "proposals executedC = [P_for\<lparr>executed := True, description := ''why'' @ executed_mark\<rparr>, P_against]"
  by (simp add: executedC_def execute_def scenarioC_def P_for_def P_against_def)

text \<open>
  C4. With distinct identifiers, after a call of \<open>execute\<close> that leaves the proposal \<open>p\<close>
  executed (it was executed before, or its deadline had passed), a second call, at any
  time, returns the same state and notification as the first. No handler that rewrites
  the proposal list takes a proposal out of the executed state: \<open>execute\<close> returns every
  executed proposal as it is, \<open>vote\<close> keeps the flag of every executed proposal, and
  \<open>createProposal\<close> only puts a new proposal in front of the list.
\<close>

theorem execute_idempotent:
  "(distinct (map id_proposal (proposals s)) \<and> p \<in> set (proposals s)
      \<and> (executed p \<or> endsAt p \<le> now)
     \<longrightarrow> execute now' (fst (execute now s (id_proposal p))) (id_proposal p)
           = execute now s (id_proposal p))
   \<and> (\<forall>k<length (proposals s). executed (proposals s ! k)
         \<longrightarrow> proposals (fst (execute now s i)) ! k = proposals s ! k)
   \<and> (\<forall>k<length (proposals s). executed (proposals s ! k)
         \<longrightarrow> executed (proposals (fst (vote r now s i c)) ! k))
   \<and> tl (proposals (fst (createProposal uuid now s ttl desc ends changes))) = proposals s"
proof (intro conjI impI)
  assume h: "distinct (map id_proposal (proposals s)) \<and> p \<in> set (proposals s)
      \<and> (executed p \<or> endsAt p \<le> now)"
  let ?s1 = "fst (execute now s (id_proposal p))"
  have "\<forall>q\<in>set (proposals ?s1). id_proposal q = id_proposal p \<longrightarrow> executed q"
    using h by (intro execute_marks) auto
  then have "execute now' ?s1 (id_proposal p) = (?s1, Some ProposalExecuted)"
    by (intro execute_noop) auto
  then show "execute now' ?s1 (id_proposal p) = execute now s (id_proposal p)"
    by (simp add: execute_def)
next
  show "\<forall>k<length (proposals s). executed (proposals s ! k)
         \<longrightarrow> proposals (fst (execute now s i)) ! k = proposals s ! k"
    by (rule execute_keeps_executed)
  show "\<forall>k<length (proposals s). executed (proposals s ! k)
         \<longrightarrow> executed (proposals (fst (vote r now s i c)) ! k)"
    by (rule vote_keeps_executed)
  show "tl (proposals (fst (createProposal uuid now s ttl desc ends changes))) = proposals s"
    by (simp add: createProposal_def)
qed

theorem execute_idempotent_witness:
  "distinct (map id_proposal (proposals scenarioC)) \<and> P_for \<in> set (proposals scenarioC)
   \<and> endsAt P_for \<le> 1000
   \<and> execute 3000 executedC ''p-for'' = (executedC, Some ProposalExecuted)
   \<and> (0::nat) < length (proposals executedC) \<and> executed (proposals executedC ! 0)
   \<and> proposals (fst (execute 3000 executedC ''p-for'')) ! 0 = proposals executedC ! 0
   \<and> executed (proposals (fst (vote exact 1000 executedC ''p-for'' For)) ! 0)
   \<and> forVotes (proposals (fst (vote exact 1000 executedC ''p-for'' For)) ! 0) = 500100"
proof -
  have e: "execute 1000 scenarioC ''p-for'' = (executedC, Some ProposalExecuted)"
    by (simp add: executedC_def execute_def)
  have m: "me executedC = Some W1"
    by (simp add: executedC_def execute_def scenarioC_def me_def seed_connected_def seed_def
        W1_def W2_def W3_def)
  have v: "forVotes (proposals (fst (vote exact 1000 executedC ''p-for'' For)) ! 0) = 500100"
    by (simp add: vote_def m executedC_proposals W1_def P_for_def jadd_def exact_def)
  show ?thesis
    using execute_idempotent[where s = scenarioC and p = P_for and now = 1000 and now' = 3000]
      execute_idempotent[where s = executedC and now = 3000 and i = "''p-for''"]
      execute_idempotent[where s = executedC and now = 1000 and i = "''p-for''"
        and r = exact and c = For]
      e v
    by (simp add: scenarioC_facts executedC_proposals)
qed


section \<open>Usage simulation\<close>

lemma usage_loop_funpow:
  "usage_loop r stamp s m calls i (a, b, c, ev) =
     (((\<lambda>x. jadd r x (jdiv r (jmul r (apiFeeUSDC (params s)) (revenueSharePct (params s))) 100))
         ^^ nat (calls - int i)) a,
      ((\<lambda>x. jadd r x (jdiv r (jmul r (apiFeeUSDC (params s)) (daoTreasuryPct (params s))) 100))
         ^^ nat (calls - int i)) b,
      ((\<lambda>x. jadd r x (jdiv r (jmul r (apiFeeUSDC (params s)) (buybackPct (params s))) 100))
         ^^ nat (calls - int i)) c,
      ev @ map (\<lambda>j. \<lparr>id_event = fst (stamp j), ts = snd (stamp j), caller = address m,
                       feeUSDC = apiFeeUSDC (params s), version = modelVersion s,
                       note_event = Some ''API call''\<rparr>) [i..<i + nat (calls - int i)])"
proof (induction r stamp s m calls i "(a, b, c, ev)" arbitrary: a b c ev rule: usage_loop.induct)
  case (1 r stamp s m calls i a b c ev)
  show ?case
  proof (cases "int i < calls")
    case True
    then have n: "nat (calls - int i) = Suc (nat (calls - int (Suc i)))" by simp
    have u: "[i..<i + Suc (nat (calls - int (Suc i)))]
               = i # [Suc i..<Suc i + nat (calls - int (Suc i))]"
      by (simp add: upt_conv_Cons)
    show ?thesis
      apply (subst usage_loop.simps)
      apply (simp only: True if_True Let_def)
      apply (subst "1.hyps"[OF True refl])
      apply (simp only: n u funpow_Suc_right o_apply)
      apply simp
      done
  next
    case False
    then show ?thesis by (subst usage_loop.simps) simp
  qed
qed

lemma funpow_add_const: "((\<lambda>x. x + d) ^^ n) (a::real) = a + real n * d"
  by (induction n arbitrary: a) (simp_all add: algebra_simps funpow_Suc_right del: funpow.simps)

lemma usage_loop_exact:
  "usage_loop exact stamp s m calls 0 (0, 0, 0, []) =
     (real (nat calls) * (apiFeeUSDC (params s) * revenueSharePct (params s) / 100),
      real (nat calls) * (apiFeeUSDC (params s) * daoTreasuryPct (params s) / 100),
      real (nat calls) * (apiFeeUSDC (params s) * buybackPct (params s) / 100),
      map (\<lambda>j. \<lparr>id_event = fst (stamp j), ts = snd (stamp j), caller = address m,
                       feeUSDC = apiFeeUSDC (params s), version = modelVersion s,
                       note_event = Some ''API call''\<rparr>) [0..<nat calls])"
  by (simp add: usage_loop_funpow jadd_def jdiv_def jmul_def exact_def funpow_add_const)


lemma foldl_add_sum_list:
  "foldl (\<lambda>a b. a + f b) (a0::real) xs = a0 + sum_list (map f xs)"
  by (induction xs arbitrary: a0) simp_all

lemma totalMSTHeld_exact:
  "totalMSTHeld exact s = sum_list (map mst (filter (\<lambda>w. 0 < mst w) (wallets s)))"
  by (simp add: totalMSTHeld_def mstHolders_def jadd_def exact_def foldl_add_sum_list)

lemma sum_list_filter_pos:
  "\<exists>w\<in>set ws. 0 < mst w \<Longrightarrow> 0 < sum_list (map mst (filter (\<lambda>w. 0 < mst w) ws))"
proof (induction ws)
  case Nil
  then show ?case by simp
next
  case (Cons a ws)
  have nn: "0 \<le> sum_list (map mst (filter (\<lambda>w. 0 < mst w) ws))"
    by (rule sum_list_nonneg) auto
  show ?case
  proof (cases "0 < mst a")
    case True
    then show ?thesis using nn by simp
  next
    case False
    then show ?thesis using Cons by auto
  qed
qed

lemma sum_list_shares:
  "sum_list (map (\<lambda>w. if mst w \<le> 0 then 0 else c * (mst w / t)) ws)
     = c * (sum_list (map mst (filter (\<lambda>w. 0 < mst w) ws)) / (t::real))"
  by (induction ws) (auto simp: algebra_simps add_divide_distrib)

lemma increments_distribute:
  "sum_list (map (\<lambda>(w', w). claimableUSDC w' - claimableUSDC w)
       (zip (distribute exact s x) (wallets s)))
     = sum_list (map (\<lambda>w. if mst w \<le> 0 then 0 else x * (mst w / totalMSTHeld exact s))
         (wallets s))"
proof -
  have z: "zip (distribute exact s x) (wallets s)
      = map (\<lambda>w. (if mst w \<le> 0 then w
              else w\<lparr>claimableUSDC := claimableUSDC w + x * (mst w / totalMSTHeld exact s)\<rparr>, w))
          (wallets s)"
    by (simp add: distribute_def zip_map1 zip_same_conv_map jadd_def jmul_def jdiv_def
        exact_def[of "_ + _"] exact_def[of "_ * _"] exact_def[of "_ / _"] Let_def)
  have m: "map ((\<lambda>(w', w). claimableUSDC w' - claimableUSDC w) \<circ>
         (\<lambda>w. (if mst w \<le> 0 then w
              else w\<lparr>claimableUSDC := claimableUSDC w + x * (mst w / totalMSTHeld exact s)\<rparr>, w)))
         (wallets s)
      = map (\<lambda>w. if mst w \<le> 0 then 0 else x * (mst w / totalMSTHeld exact s)) (wallets s)"
    by (rule map_cong) auto
  show ?thesis unfolding z map_map m by (rule refl)
qed

lemma wallets_simulateUsage:
  "me s = Some m \<Longrightarrow> wallets (fst (simulateUsage r stamp s calls))
      = distribute r s (fst (usage_loop r stamp s m calls 0 (0, 0, 0, [])))"
  by (simp add: simulateUsage_def split: prod.splits)


lemma binary64_values:
  "binary64 100000 = 100000" "binary64 1 = 1"
  "binary64 (5066549580791809 / 562949953421312) = 5066549580791809 / 562949953421312"
  by code_simp+

lemma share_binary64:
  "jdiv binary64 (jmul binary64 1 90) 100 = 8106479329266893 / 9007199254740992"
  by code_simp

lemma ten_additions_binary64:
  "binary64 (0 + 8106479329266893 / 9007199254740992) = 8106479329266893 / 9007199254740992"
  "binary64 (8106479329266893 / 9007199254740992 + 8106479329266893 / 9007199254740992) = 8106479329266893 / 4503599627370496"
  "binary64 (8106479329266893 / 4503599627370496 + 8106479329266893 / 9007199254740992) = 3039929748475085 / 1125899906842624"
  "binary64 (3039929748475085 / 1125899906842624 + 8106479329266893 / 9007199254740992) = 8106479329266893 / 2251799813685248"
  "binary64 (8106479329266893 / 2251799813685248 + 8106479329266893 / 9007199254740992) = 9 / 2"
  "binary64 (9 / 2 + 8106479329266893 / 9007199254740992) = 3039929748475085 / 562949953421312"
  "binary64 (3039929748475085 / 562949953421312 + 8106479329266893 / 9007199254740992) = 1773292353277133 / 281474976710656"
  "binary64 (1773292353277133 / 281474976710656 + 8106479329266893 / 9007199254740992) = 4053239664633447 / 562949953421312"
  "binary64 (4053239664633447 / 562949953421312 + 8106479329266893 / 9007199254740992) = 1139973655678157 / 140737488355328"
  "binary64 (1139973655678157 / 140737488355328 + 8106479329266893 / 9007199254740992) = 5066549580791809 / 562949953421312"
  by code_simp+

lemma ten_shares_binary64:
  "((\<lambda>x. jadd binary64 x (jdiv binary64 (jmul binary64 1 90) 100)) ^^ 10) 0
     = 5066549580791809 / 562949953421312"
proof -
  have n: "(10::nat) = Suc (Suc (Suc (Suc (Suc (Suc (Suc (Suc (Suc (Suc 0)))))))))"
    by simp
  show ?thesis
    unfolding n share_binary64 jadd_def
    by (simp only: funpow.simps o_apply id_apply ten_additions_binary64)
qed

lemma scenarioA_fields:
  "me scenarioA = Some W1" "params scenarioA = params seed_connected"
  "wallets scenarioA = [W1, W2\<lparr>mst := 0\<rparr>, W3\<lparr>mst := 0\<rparr>]"
  by (simp_all add: scenarioA_def me_def seed_connected_def seed_def W1_def W2_def W3_def)

lemma scenarioA_binary64:
  "wallets (fst (simulateUsage binary64 stamp0 scenarioA 10))
     = [W1\<lparr>claimableUSDC := 5066549580791809 / 562949953421312\<rparr>, W2\<lparr>mst := 0\<rparr>, W3\<lparr>mst := 0\<rparr>]"
proof -
  have t: "totalMSTHeld binary64 scenarioA = 100000"
    by (simp add: totalMSTHeld_def mstHolders_def scenarioA_fields W1_def W2_def W3_def
        jadd_def binary64_values)
  have l: "fst (usage_loop binary64 stamp0 scenarioA W1 10 0 (0, 0, 0, []))
             = 5066549580791809 / 562949953421312"
    by (simp add: usage_loop_funpow scenarioA_fields seed_connected_fields ten_shares_binary64)
  show ?thesis
    unfolding wallets_simulateUsage[OF scenarioA_fields(1)] l
    by (simp add: distribute_def t scenarioA_fields W1_def W2_def W3_def
        jadd_def jmul_def jdiv_def binary64_values)
qed

lemma simulateUsage_exact:
  assumes "me s = Some m"
  shows "simulateUsage exact stamp s calls =
     (case buyback exact s (buybackPoolUSDC s
              + real (nat calls) * (apiFeeUSDC (params s) * buybackPct (params s) / 100)) of
        (newCirculatingMST, pool, burnMST) \<Rightarrow>
          (s\<lparr>wallets := distribute exact s
                 (real (nat calls) * (apiFeeUSDC (params s) * revenueSharePct (params s) / 100)),
             usage := usage s @ map (\<lambda>j. \<lparr>id_event = fst (stamp j), ts = snd (stamp j),
                       caller = address m, feeUSDC = apiFeeUSDC (params s),
                       version = modelVersion s, note_event = Some ''API call''\<rparr>) [0..<nat calls],
             treasuryUSDC := treasuryUSDC s
                 + real (nat calls) * (apiFeeUSDC (params s) * daoTreasuryPct (params s) / 100),
             buybackPoolUSDC := pool,
             circulatingMST := newCirculatingMST\<rparr>,
           Some (Simulated calls)))"
  using assms
  by (simp add: simulateUsage_def usage_loop_exact jadd_def exact_def[of "_ + _"])

lemma mst_distribute: "map mst (distribute r s x) = map mst (wallets s)"
  by (simp add: distribute_def Let_def)

lemma distribute_no_holders:
  "\<forall>w\<in>set (wallets s). mst w \<le> 0 \<Longrightarrow> distribute r s x = wallets s"
  by (simp add: distribute_def map_idI)

lemma totalMSTHeld_no_holders:
  "\<forall>w\<in>set (wallets s). mst w \<le> 0 \<Longrightarrow> totalMSTHeld r s = 0"
proof -
  assume "\<forall>w\<in>set (wallets s). mst w \<le> 0"
  then have "filter (\<lambda>w. 0 < mst w) (wallets s) = []"
    by (auto simp: filter_empty_conv)
  then show ?thesis by (simp add: totalMSTHeld_def mstHolders_def)
qed

subsection \<open>Pro-rata distribution\<close>

text \<open>
  C2, as stated, fails in its scenario: with the first seed wallet (100000 security tokens)
  as the only holder, fee 1, holder percentage 90 and 10 calls, the code's loop adds
  \<open>0.9\<close> ten times in binary64 and the wallet's accrued revenue increases by
  \<open>9 + 2^-49\<close> (printed 9.000000000000002), not by exactly 9.
\<close>

theorem scenarioA_not_exactly_9:
  "me scenarioA = Some W1
   \<and> map mst (wallets scenarioA) = [100000, 0, 0]
   \<and> apiFeeUSDC (params scenarioA) = 1 \<and> revenueSharePct (params scenarioA) = 90
   \<and> claimableUSDC (wallets (fst (simulateUsage binary64 stamp0 scenarioA 10)) ! 0)
        - claimableUSDC (wallets scenarioA ! 0) \<noteq> 9"
  unfolding scenarioA_binary64 scenarioA_fields
  by (simp add: W1_def W2_def W3_def seed_connected_fields)

text \<open>
  C2 as amended. In exact arithmetic, for a connected identity, \<open>calls \<ge> 1\<close> and at least
  one wallet with a positive security-token balance, the increments of accrued revenue
  over all wallets sum to \<open>fee * holderPct / 100 * calls\<close>. In the scenario the increase is
  9 in exact arithmetic (the witness) and \<open>9 + 2^-49\<close> in the binary64 arithmetic of the
  code: 9.0 up to rounding, not exactly.
\<close>

theorem pro_rata_conservation:
  "(me s = Some m \<and> 1 \<le> calls \<and> (\<exists>w\<in>set (wallets s). 0 < mst w) \<longrightarrow>
      sum_list (map (\<lambda>(w', w). claimableUSDC w' - claimableUSDC w)
          (zip (wallets (fst (simulateUsage exact stamp s calls))) (wallets s)))
        = apiFeeUSDC (params s) * revenueSharePct (params s) / 100 * of_int calls)
   \<and> claimableUSDC (wallets (fst (simulateUsage binary64 stamp0 scenarioA 10)) ! 0)
        - claimableUSDC (wallets scenarioA ! 0) = 9 + 1 / 2 ^ 49"
proof (intro conjI impI)
  assume h: "me s = Some m \<and> 1 \<le> calls \<and> (\<exists>w\<in>set (wallets s). 0 < mst w)"
  let ?x = "real (nat calls) * (apiFeeUSDC (params s) * revenueSharePct (params s) / 100)"
  have t: "0 < totalMSTHeld exact s"
    using h by (simp add: totalMSTHeld_exact sum_list_filter_pos)
  have w: "wallets (fst (simulateUsage exact stamp s calls)) = distribute exact s ?x"
    using h by (simp add: simulateUsage_exact split: prod.splits)
  have "sum_list (map (\<lambda>(w', w). claimableUSDC w' - claimableUSDC w)
          (zip (distribute exact s ?x) (wallets s)))
        = ?x * (totalMSTHeld exact s / totalMSTHeld exact s)"
    unfolding increments_distribute sum_list_shares
    by (simp add: totalMSTHeld_exact)
  also have "\<dots> = ?x" using t by simp
  also have "\<dots> = apiFeeUSDC (params s) * revenueSharePct (params s) / 100 * of_int calls"
    using h by simp
  finally show "sum_list (map (\<lambda>(w', w). claimableUSDC w' - claimableUSDC w)
          (zip (wallets (fst (simulateUsage exact stamp s calls))) (wallets s)))
        = apiFeeUSDC (params s) * revenueSharePct (params s) / 100 * of_int calls"
    unfolding w .
next
  show "claimableUSDC (wallets (fst (simulateUsage binary64 stamp0 scenarioA 10)) ! 0)
        - claimableUSDC (wallets scenarioA ! 0) = 9 + 1 / 2 ^ 49"
    unfolding scenarioA_binary64 scenarioA_fields by (simp add: W1_def)
qed

theorem pro_rata_conservation_witness:
  "me scenarioA = Some W1 \<and> (1::int) \<le> 10 \<and> (\<exists>w\<in>set (wallets scenarioA). 0 < mst w)
   \<and> sum_list (map (\<lambda>(w', w). claimableUSDC w' - claimableUSDC w)
          (zip (wallets (fst (simulateUsage exact stamp0 scenarioA 10))) (wallets scenarioA)))
        = 9
   \<and> me seed_connected = Some W1 \<and> (\<exists>w\<in>set (wallets seed_connected). 0 < mst w)
   \<and> sum_list (map (\<lambda>(w', w). claimableUSDC w' - claimableUSDC w)
          (zip (wallets (fst (simulateUsage exact stamp0 seed_connected 10)))
               (wallets seed_connected)))
        = 9"
proof -
  have e: "\<exists>w\<in>set (wallets scenarioA). 0 < mst w"
    by (simp add: scenarioA_fields W1_def)
  have e': "\<exists>w\<in>set (wallets seed_connected). 0 < mst w"
    by (simp add: seed_connected_def seed_def W1_def)
  show ?thesis
    using pro_rata_conservation[of scenarioA W1 10 stamp0]
      pro_rata_conservation[of seed_connected W1 10 stamp0] e e'
    by (simp add: scenarioA_fields me_seed_connected seed_connected_fields)
qed


subsection \<open>Buyback and burn\<close>

lemma simulateUsage_fields:
  assumes "me s = Some m"
  shows "circulatingMST (fst (simulateUsage r stamp s calls))
           = fst (buyback r s (jadd r (buybackPoolUSDC s)
               (((\<lambda>x. jadd r x (jdiv r (jmul r (apiFeeUSDC (params s)) (buybackPct (params s))) 100))
                   ^^ nat calls) 0)))"
    and "buybackPoolUSDC (fst (simulateUsage r stamp s calls))
           = fst (snd (buyback r s (jadd r (buybackPoolUSDC s)
               (((\<lambda>x. jadd r x (jdiv r (jmul r (apiFeeUSDC (params s)) (buybackPct (params s))) 100))
                   ^^ nat calls) 0))))"
  using assms by (simp_all add: simulateUsage_def usage_loop_funpow split: prod.splits)

lemma binary64_numeral:
  "numeral w \<le> (2 ^ 53 :: int) \<Longrightarrow> binary64 (numeral w) = numeral w"
  using binary64_of_double[OF is_double_of_int[of "numeral w"]] by simp

lemma buyback_share_binary64:
  "binary64 (binary64 (1 * 5) / 100) = 3602879701896397 / 72057594037927936"
  by code_simp

lemma ten_buyback_additions_binary64:
  "binary64 (0 + 3602879701896397 / 72057594037927936) = 3602879701896397 / 72057594037927936"
  "binary64 (3602879701896397 / 72057594037927936 + 3602879701896397 / 72057594037927936) = 3602879701896397 / 36028797018963968"
  "binary64 (3602879701896397 / 36028797018963968 + 3602879701896397 / 72057594037927936) = 1351079888211149 / 9007199254740992"
  "binary64 (1351079888211149 / 9007199254740992 + 3602879701896397 / 72057594037927936) = 3602879701896397 / 18014398509481984"
  "binary64 (3602879701896397 / 18014398509481984 + 3602879701896397 / 72057594037927936) = 1 / 4"
  "binary64 (1 / 4 + 3602879701896397 / 72057594037927936) = 5404319552844595 / 18014398509481984"
  "binary64 (5404319552844595 / 18014398509481984 + 3602879701896397 / 72057594037927936) = 3152519739159347 / 9007199254740992"
  "binary64 (3152519739159347 / 9007199254740992 + 3602879701896397 / 72057594037927936) = 7205759403792793 / 18014398509481984"
  "binary64 (7205759403792793 / 18014398509481984 + 3602879701896397 / 72057594037927936) = 2026619832316723 / 4503599627370496"
  "binary64 (2026619832316723 / 4503599627370496 + 3602879701896397 / 72057594037927936) = 9007199254740991 / 18014398509481984"
  by code_simp+

lemma pool10_binary64:
  "binary64 (10 + 3602879701896397 / 72057594037927936) = 2828823515942093 / 281474976710656"
  by code_simp

lemma ten_buyback_shares_binary64:
  "((\<lambda>x. binary64 (x + binary64 (binary64 (1 * 5) / 100))) ^^ 10) 0
     = 9007199254740991 / 18014398509481984"
proof -
  have n: "(10::nat) = Suc (Suc (Suc (Suc (Suc (Suc (Suc (Suc (Suc (Suc 0)))))))))"
    by simp
  show ?thesis
    unfolding n buyback_share_binary64
    by (simp only: funpow.simps o_apply id_apply ten_buyback_additions_binary64)
qed

lemma pool_after_ten_binary64:
  "binary64 (0 + 9007199254740991 / 18014398509481984) = 9007199254740991 / 18014398509481984"
  by code_simp

lemma pool10_fields:
  "me pool10 = Some W1" "params pool10 = params seed_connected" "buybackPoolUSDC pool10 = 10"
  "circulatingMST pool10 = 112500" "map mst (wallets pool10) = [100000, 10000, 2500]"
  by (simp_all add: pool10_def me_def seed_connected_def seed_def W1_def W2_def W3_def)

lemma pool10_wallets: "wallets pool10 = wallets seed_connected"
  by (simp add: pool10_def)

lemma totalMSTHeld_seed_binary64: "totalMSTHeld binary64 seed_connected = 112500"
  by (simp add: totalMSTHeld_def mstHolders_def seed_connected_def seed_def W1_def W2_def W3_def
      jadd_def binary64_numeral)

text \<open>
  C9. In the binary64 arithmetic of the code, for a usage simulation by a connected
  identity with buyback enabled, a positive total of security tokens held and a positive
  buyback pool after accumulation (the old pool plus the buyback shares the loop has
  added up, as the code rounds them): the burn quantity is \<open>floor (pool / 0.5)\<close>, without
  any rounding, and is \<open>\<ge> 0\<close>; the circulating security-token supply becomes
  \<open>max 0 (supply - burn)\<close>, the difference rounded to a double and not rounded at all when
  the supply is a whole number up to \<open>2^53\<close>, so it is never below 0; the buyback pool
  becomes \<open>pool - burn * 0.5\<close>, without any rounding; and the security-token balance of
  every wallet is as before. The witness is the seed with the simulator's 10 calls, where
  the pool adds up to 0.49999999999999994 and nothing is burnt, and the seed with 10 in
  the pool and one call, where 20 are burnt.
\<close>

theorem buyback_burn:
  assumes "me s = Some m" and "buybackActive (params s)" and "0 < totalMSTHeld binary64 s"
    and "pool = binary64 (buybackPoolUSDC s
           + ((\<lambda>x. binary64 (x + binary64 (binary64 (apiFeeUSDC (params s) * buybackPct (params s))
                                              / 100))) ^^ nat calls) 0)"
    and "0 < pool"
  shows "snd (snd (buyback binary64 s pool)) = of_int \<lfloor>pool / 0.5\<rfloor>
       \<and> 0 \<le> \<lfloor>pool / 0.5\<rfloor>
       \<and> circulatingMST (fst (simulateUsage binary64 stamp s calls))
           = max 0 (binary64 (circulatingMST s - of_int \<lfloor>pool / 0.5\<rfloor>))
       \<and> 0 \<le> circulatingMST (fst (simulateUsage binary64 stamp s calls))
       \<and> ((\<exists>c. 0 \<le> c \<and> c \<le> 2 ^ 53 \<and> circulatingMST s = of_int c) \<longrightarrow>
            circulatingMST (fst (simulateUsage binary64 stamp s calls))
              = max 0 (circulatingMST s - of_int \<lfloor>pool / 0.5\<rfloor>))
       \<and> buybackPoolUSDC (fst (simulateUsage binary64 stamp s calls))
           = pool - of_int \<lfloor>pool / 0.5\<rfloor> * 0.5
       \<and> map mst (wallets (fst (simulateUsage binary64 stamp s calls))) = map mst (wallets s)"
proof -
  let ?b = "\<lfloor>pool / 0.5\<rfloor>"
  have tw: "pool / 0.5 = 2 * pool" by simp
  have dp: "is_double pool" unfolding assms(4) by (rule is_double_binary64)
  have q: "binary64 (pool / 0.5) = pool / 0.5"
    unfolding tw by (rule binary64_of_double[OF is_double_twice[OF dp]])
  have hf: "0 \<le> \<lfloor>2 * pool\<rfloor>" "is_double (real_of_int \<lfloor>2 * pool\<rfloor> * (1 / 2))"
    "is_double (pool - real_of_int \<lfloor>2 * pool\<rfloor> * (1 / 2))"
    using half_floor_double[OF dp assms(5)] by blast+
  have e1: "real_of_int ?b * 0.5 = real_of_int \<lfloor>2 * pool\<rfloor> * (1 / 2)"
    unfolding tw by simp
  have h1: "binary64 (real_of_int ?b * 0.5) = real_of_int ?b * 0.5"
    unfolding e1 by (rule binary64_of_double[OF hf(2)])
  have h2: "binary64 (pool - real_of_int ?b * 0.5) = pool - real_of_int ?b * 0.5"
    unfolding e1 by (rule binary64_of_double[OF hf(3)])
  have b: "buyback binary64 s pool
      = (max 0 (binary64 (circulatingMST s - real_of_int ?b)),
         pool - real_of_int ?b * 0.5, real_of_int ?b)"
    using assms(2,3,5)
    by (simp only: buyback_def jfloor_def jdiv_def jsub_def jmul_def Let_def q h1 h2) simp
  have p: "jadd binary64 (buybackPoolUSDC s)
               (((\<lambda>x. jadd binary64 x (jdiv binary64 (jmul binary64 (apiFeeUSDC (params s))
                    (buybackPct (params s))) 100)) ^^ nat calls) 0) = pool"
    unfolding assms(4) by (simp only: jadd_def jdiv_def jmul_def)
  have c: "circulatingMST (fst (simulateUsage binary64 stamp s calls))
             = max 0 (binary64 (circulatingMST s - real_of_int ?b))"
    unfolding simulateUsage_fields(1)[OF assms(1)] p b by simp
  have pl: "buybackPoolUSDC (fst (simulateUsage binary64 stamp s calls))
             = pool - real_of_int ?b * 0.5"
    unfolding simulateUsage_fields(2)[OF assms(1)] p b by simp
  have w: "map mst (wallets (fst (simulateUsage binary64 stamp s calls))) = map mst (wallets s)"
    using assms(1) by (simp add: simulateUsage_def mst_distribute split: prod.splits)
  have b0: "0 \<le> ?b" unfolding tw by (rule hf(1))
  have i: "(\<exists>c. 0 \<le> c \<and> c \<le> 2 ^ 53 \<and> circulatingMST s = of_int c) \<longrightarrow>
            circulatingMST (fst (simulateUsage binary64 stamp s calls))
              = max 0 (circulatingMST s - real_of_int ?b)"
  proof
    assume "\<exists>c. 0 \<le> c \<and> c \<le> 2 ^ 53 \<and> circulatingMST s = of_int c"
    then obtain k where k: "0 \<le> k" "k \<le> 2 ^ 53" "circulatingMST s = real_of_int k" by blast
    have d: "circulatingMST s - real_of_int ?b = real_of_int (k - ?b)" using k(3) by simp
    show "circulatingMST (fst (simulateUsage binary64 stamp s calls))
              = max 0 (circulatingMST s - real_of_int ?b)"
    proof (cases "0 \<le> k - ?b")
      case True
      have "k - ?b \<le> 2 ^ 53" using k(2) b0 by linarith
      with True have "is_double (real_of_int (k - ?b))"
        by (intro is_double_of_int)
      then show ?thesis unfolding c d by (simp add: binary64_of_double)
    next
      case False
      then have n: "real_of_int (k - ?b) \<le> 0" by simp
      then have "binary64 (real_of_int (k - ?b)) \<le> 0" using binary64_sign by blast
      then show ?thesis unfolding c d using n by (simp add: max_def)
    qed
  qed
  show ?thesis
    using b c pl w b0 i by simp
qed


theorem buyback_burn_witness:
  "me seed_connected = Some W1 \<and> buybackActive (params seed_connected)
   \<and> 0 < totalMSTHeld binary64 seed_connected
   \<and> 9007199254740991 / 18014398509481984 = binary64 (buybackPoolUSDC seed_connected
           + ((\<lambda>x. binary64 (x + binary64 (binary64 (apiFeeUSDC (params seed_connected)
                  * buybackPct (params seed_connected)) / 100))) ^^ nat 10) 0)
   \<and> (0::real) < 9007199254740991 / 18014398509481984
   \<and> snd (snd (buyback binary64 seed_connected (9007199254740991 / 18014398509481984))) = 0
   \<and> circulatingMST (fst (simulateUsage binary64 stamp0 seed_connected 10)) = 112500
   \<and> buybackPoolUSDC (fst (simulateUsage binary64 stamp0 seed_connected 10)) = 9007199254740991 / 18014398509481984
   \<and> me pool10 = Some W1 \<and> buybackActive (params pool10) \<and> 0 < totalMSTHeld binary64 pool10
   \<and> 2828823515942093 / 281474976710656 = binary64 (buybackPoolUSDC pool10
           + ((\<lambda>x. binary64 (x + binary64 (binary64 (apiFeeUSDC (params pool10)
                  * buybackPct (params pool10)) / 100))) ^^ nat 1) 0)
   \<and> (0::real) < 2828823515942093 / 281474976710656
   \<and> snd (snd (buyback binary64 pool10 (2828823515942093 / 281474976710656))) = 20
   \<and> circulatingMST (fst (simulateUsage binary64 stamp0 pool10 1)) = 112480
   \<and> buybackPoolUSDC (fst (simulateUsage binary64 stamp0 pool10 1))
        = 14073748835533 / 281474976710656
   \<and> map mst (wallets (fst (simulateUsage binary64 stamp0 pool10 1))) = [100000, 10000, 2500]"
proof -
  have pa: "apiFeeUSDC (params seed_connected) = 1" "buybackPct (params seed_connected) = 5"
    "buybackPoolUSDC seed_connected = 0" "buybackActive (params seed_connected)"
    "circulatingMST seed_connected = 112500"
    by (simp_all add: seed_connected_def seed_def)
  have t1: "0 < totalMSTHeld binary64 seed_connected"
    by (simp add: totalMSTHeld_seed_binary64)
  have t2: "0 < totalMSTHeld binary64 pool10"
    using t1 by (simp add: totalMSTHeld_def mstHolders_def pool10_wallets)
  have e1: "9007199254740991 / 18014398509481984 = binary64 (buybackPoolUSDC seed_connected
           + ((\<lambda>x. binary64 (x + binary64 (binary64 (apiFeeUSDC (params seed_connected)
                  * buybackPct (params seed_connected)) / 100))) ^^ nat 10) 0)"
    by (simp only: pa nat_numeral ten_buyback_shares_binary64 pool_after_ten_binary64)
  have e2: "2828823515942093 / 281474976710656 = binary64 (buybackPoolUSDC pool10
           + ((\<lambda>x. binary64 (x + binary64 (binary64 (apiFeeUSDC (params pool10)
                  * buybackPct (params pool10)) / 100))) ^^ nat 1) 0)"
    by (simp only: pool10_fields pa nat_1 funpow.simps o_apply id_apply buyback_share_binary64
        ten_buyback_additions_binary64 pool10_binary64)
  have a2: "buybackActive (params pool10)" by (simp add: pool10_fields pa)
  have p1: "(0::real) < 9007199254740991 / 18014398509481984" by simp
  have p2: "(0::real) < 2828823515942093 / 281474976710656" by simp
  have f1: "\<lfloor>(9007199254740991 / 18014398509481984 :: real) / 0.5\<rfloor> = 0" by simp
  have f2: "\<lfloor>(2828823515942093 / 281474976710656 :: real) / 0.5\<rfloor> = 20" by simp
  have c1: "snd (snd (buyback binary64 seed_connected (9007199254740991 / 18014398509481984))) = 0
      \<and> circulatingMST (fst (simulateUsage binary64 stamp0 seed_connected 10)) = 112500
      \<and> buybackPoolUSDC (fst (simulateUsage binary64 stamp0 seed_connected 10)) = 9007199254740991 / 18014398509481984"
    using buyback_burn[OF me_seed_connected pa(4) t1 e1 p1, of stamp0]
    by (simp add: pa f1 binary64_numeral)
  have c2: "snd (snd (buyback binary64 pool10 (2828823515942093 / 281474976710656))) = 20
      \<and> circulatingMST (fst (simulateUsage binary64 stamp0 pool10 1)) = 112480
      \<and> buybackPoolUSDC (fst (simulateUsage binary64 stamp0 pool10 1))
           = 14073748835533 / 281474976710656
      \<and> map mst (wallets (fst (simulateUsage binary64 stamp0 pool10 1)))
           = [100000, 10000, 2500]"
    using buyback_burn[OF pool10_fields(1) a2 t2 e2 p2, of stamp0]
    by (simp add: pool10_fields f2 binary64_numeral)
  show ?thesis
    by (intro conjI; (fact e1 | fact e2
          | simp add: c1 c2 t1 t2 a2 me_seed_connected pa pool10_fields))
qed

subsection \<open>No holder\<close>

text \<open>
  C10. When no wallet has a positive security-token balance, the usage simulation (exact
  arithmetic) by a connected identity changes the state in three fields only: the usage
  log, the treasury (plus the treasury share) and the buyback pool (plus the buyback
  share). The wallets, and so every accrued revenue, are as before, and what is credited
  in total is \<open>calls * fee * (treasuryPct + buybackPct) / 100\<close>: the holder share of the
  fees goes nowhere.
\<close>

theorem no_holders_share_discarded:
  assumes "me s = Some m" and "\<forall>w\<in>set (wallets s). mst w \<le> 0"
  shows "fst (simulateUsage exact stamp s calls)
           = s\<lparr>usage := usage s @ map (\<lambda>j. \<lparr>id_event = fst (stamp j), ts = snd (stamp j),
                       caller = address m, feeUSDC = apiFeeUSDC (params s),
                       version = modelVersion s, note_event = Some ''API call''\<rparr>) [0..<nat calls],
                treasuryUSDC := treasuryUSDC s
                  + real (nat calls) * (apiFeeUSDC (params s) * daoTreasuryPct (params s) / 100),
                buybackPoolUSDC := buybackPoolUSDC s
                  + real (nat calls) * (apiFeeUSDC (params s) * buybackPct (params s) / 100)\<rparr>
       \<and> wallets (fst (simulateUsage exact stamp s calls)) = wallets s
       \<and> (treasuryUSDC (fst (simulateUsage exact stamp s calls)) - treasuryUSDC s)
         + (buybackPoolUSDC (fst (simulateUsage exact stamp s calls)) - buybackPoolUSDC s)
         + sum_list (map (\<lambda>(w', w). claimableUSDC w' - claimableUSDC w)
             (zip (wallets (fst (simulateUsage exact stamp s calls))) (wallets s)))
         = real (nat calls) * apiFeeUSDC (params s)
             * (daoTreasuryPct (params s) + buybackPct (params s)) / 100"
proof -
  have b: "buyback exact s pool = (circulatingMST s, pool, 0)" for pool
    using assms(2) by (simp add: buyback_def totalMSTHeld_no_holders)
  have s': "fst (simulateUsage exact stamp s calls)
           = s\<lparr>usage := usage s @ map (\<lambda>j. \<lparr>id_event = fst (stamp j), ts = snd (stamp j),
                       caller = address m, feeUSDC = apiFeeUSDC (params s),
                       version = modelVersion s, note_event = Some ''API call''\<rparr>) [0..<nat calls],
                treasuryUSDC := treasuryUSDC s
                  + real (nat calls) * (apiFeeUSDC (params s) * daoTreasuryPct (params s) / 100),
                buybackPoolUSDC := buybackPoolUSDC s
                  + real (nat calls) * (apiFeeUSDC (params s) * buybackPct (params s) / 100)\<rparr>"
    unfolding simulateUsage_exact[OF assms(1)] b
    by (simp add: distribute_no_holders[OF assms(2)])
  have z: "sum_list (map (\<lambda>(w', w). claimableUSDC w' - claimableUSDC w)
             (zip (wallets s) (wallets s))) = 0"
    by (simp add: zip_same_conv_map o_def)
  show ?thesis
    unfolding s' by (simp add: z algebra_simps)
qed

theorem no_holders_share_discarded_witness:
  "me no_holders = Some (W1\<lparr>mst := 0\<rparr>) \<and> map mst (wallets no_holders) = [0, 0, 0]
   \<and> wallets (fst (simulateUsage exact stamp0 no_holders 10)) = wallets no_holders
   \<and> treasuryUSDC (fst (simulateUsage exact stamp0 no_holders 10)) = 1 / 2
   \<and> buybackPoolUSDC (fst (simulateUsage exact stamp0 no_holders 10)) = 1 / 2
   \<and> circulatingMST (fst (simulateUsage exact stamp0 no_holders 10)) = 112500
   \<and> real (nat 10) * apiFeeUSDC (params no_holders) = 10"
proof -
  have m: "me no_holders = Some (W1\<lparr>mst := 0\<rparr>)"
    by (simp add: no_holders_def me_def seed_connected_def seed_def W1_def W2_def W3_def)
  have a: "\<forall>w\<in>set (wallets no_holders). mst w \<le> 0"
    by (simp add: no_holders_def)
  have p: "params no_holders = params seed_connected" "treasuryUSDC no_holders = 0"
    "buybackPoolUSDC no_holders = 0" "circulatingMST no_holders = 112500"
    by (simp_all add: no_holders_def seed_connected_def seed_def)
  show ?thesis
    using no_holders_share_discarded[OF m a, of stamp0 10] m
    by (simp add: p seed_connected_fields) (simp add: no_holders_def)
qed

section \<open>The revenue split\<close>

text \<open>
  C1 fails on the code, whose self-test "Revenue split sums to 100%" checks this very
  sum. From the seed (sum 100), committing the holders slider at 95 keeps the sum at 100,
  and committing the buyback slider at 20 after it gives 95 + 0 + 20 = 115, the treasury
  percentage being cut off at 0. Executing a passed proposal that overrides the holder
  percentage with 80 gives 80 + 5 + 5 = 90: \<open>execute\<close> merges the overrides as they are.
\<close>

theorem split_sum_not_100:
  "splitSum exact seed = 100
   \<and> splitSum exact (set_revenueSharePct exact 95 seed) = 100
   \<and> splitSum exact (set_buybackPct exact 20 (set_revenueSharePct exact 95 seed)) = 115
   \<and> \<not> executed P_80 \<and> endsAt P_80 \<le> 2000 \<and> againstVotes P_80 < forVotes P_80
   \<and> splitSum exact (fst (execute 2000 (seed\<lparr>proposals := [P_80]\<rparr>) ''p-80'')) = 90"
  by (simp add: splitSum_def set_buybackPct_def set_revenueSharePct_def seed_def execute_def
      P_80_def holders_80_def merge_params_def jadd_def jsub_def exact_def)

theorem split_sum_not_100_witness:
  "\<not> executed P_80 \<and> endsAt P_80 \<le> 2000 \<and> againstVotes P_80 < forVotes P_80
   \<and> splitSum exact (set_buybackPct exact 20 (set_revenueSharePct exact 95 seed)) \<noteq> 100
   \<and> splitSum exact (fst (execute 2000 (seed\<lparr>proposals := [P_80]\<rparr>) ''p-80'')) \<noteq> 100"
  using split_sum_not_100 by simp

section \<open>Voting\<close>








end
